theory Spec2Isabelle
  imports Main "HOL-Library.AList"
begin

section \<open>Lexer (src/lexer.ts)\<close>

text \<open>
  The source text is a JavaScript string; it is modelled as a list of code units
  restricted to the range 0..255 (\<^typ>\<open>char\<close>). A token is the tagged union of
  lexer.ts: every variant carries its line and column, all but \<open>eof\<close> a value.
\<close>

datatype token =
    Num string nat nat
  | Ident string nat nat
  | Str string nat nat
  | Kw string nat nat
  | Sym string nat nat
  | Eof nat nat

fun tline :: "token \<Rightarrow> nat" where
  "tline (Num v l c) = l"
| "tline (Ident v l c) = l"
| "tline (Str v l c) = l"
| "tline (Kw v l c) = l"
| "tline (Sym v l c) = l"
| "tline (Eof l c) = l"

fun tcolumn :: "token \<Rightarrow> nat" where
  "tcolumn (Num v l c) = c"
| "tcolumn (Ident v l c) = c"
| "tcolumn (Str v l c) = c"
| "tcolumn (Kw v l c) = c"
| "tcolumn (Sym v l c) = c"
| "tcolumn (Eof l c) = c"

definition keywordSet :: "string list" where
  "keywordSet = [''class'', ''extends'', ''constructor'', ''let'', ''new'', ''return'',
     ''super'', ''this'', ''true'', ''false'', ''if'', ''else'', ''import'', ''as'']"

definition twoCharSyms :: "string list" where
  "twoCharSyms = [''=='', ''!='', ''<='', ''>='', ''&&'', ''||'', ''->'']"

definition newline :: char where
  "newline = CHR 0x0A"

definition dquote :: char where
  "dquote = CHR 0x22"

definition squote :: char where
  "squote = CHR 0x27"

definition backslash :: char where
  "backslash = CHR 0x5C"

text \<open>The regular expression \<open>\s\<close> on code units below 256: tab, line feed, vertical
  tab, form feed, carriage return, space and no-break space.\<close>

definition isSpace :: "char \<Rightarrow> bool" where
  "isSpace c = (c \<in> set [CHR 0x09, CHR 0x0A, CHR 0x0B, CHR 0x0C, CHR 0x0D, CHR 0x20, CHR 0xA0])"

definition isDigit :: "char \<Rightarrow> bool" where
  "isDigit c = (c \<in> set ''0123456789'')"

definition isIdentStart :: "char \<Rightarrow> bool" where
  "isIdentStart c =
     (c \<in> set ''ABCDEFGHIJKLMNOPQRSTUVWXYZabcdefghijklmnopqrstuvwxyz_'')"

definition isIdentPart :: "char \<Rightarrow> bool" where
  "isIdentPart c = (isIdentStart c \<or> isDigit c)"

text \<open>
  The inner loop of the string branch (lexer.ts, lines 48 to 51), started at \<open>j = i + 1\<close>:
  \<open>strLoop quote rest str\<close> returns the decoded text and the input from index \<open>j\<close> on
  when the loop stops (at the closing quote, or at the end of input).
\<close>

fun strLoop :: "char \<Rightarrow> string \<Rightarrow> string \<Rightarrow> string \<times> string" where
  "strLoop quote [] str = (str, [])"
| "strLoop quote (c # cs) str =
     (if c = quote then (str, c # cs)
      else if c = backslash then
        (case cs of [] \<Rightarrow> (str, []) | d # ds \<Rightarrow> strLoop quote ds (str @ [d]))
      else strLoop quote cs (str @ [c]))"

lemma strLoop_length: "length (snd (strLoop q cs acc)) \<le> length cs"
proof (induction q cs acc rule: strLoop.induct)
  case (1 quote str)
  show ?case by simp
next
  case (2 quote c cs str)
  show ?case
  proof (cases cs)
    case Nil
    then show ?thesis using 2 by simp
  next
    case (Cons d ds)
    then show ?thesis using 2 by (auto intro: le_SucI)
  qed
qed

lemma strLoop_rest: "(s, r) = strLoop q cs acc \<Longrightarrow> length r - Suc 0 < Suc (length cs)"
  using strLoop_length [of q cs acc] by (cases "strLoop q cs acc") auto

text \<open>
  The main loop of \<open>lex\<close>, from index \<open>i\<close> on: the first argument is the input from
  \<open>i\<close>, the others the variables \<open>line\<close> and \<open>column\<close>. In the string branch \<open>j\<close> is
  counted from \<open>i\<close>, and the column advances by \<open>i' - (j - str.length)\<close> with
  \<open>i' = j + 1\<close>, as line 54 has it.
\<close>

function lexLoop :: "string \<Rightarrow> nat \<Rightarrow> nat \<Rightarrow> token list" where
  "lexLoop [] line column = [Eof line column]"
| "lexLoop (ch # rest) line column =
     (if isSpace ch then
        (if ch = newline then lexLoop rest (line + 1) 1
         else lexLoop rest line (column + 1))
      else if ch = CHR ''/'' \<and> take 1 rest = ''/'' then
        lexLoop (dropWhile (\<lambda>c. c \<noteq> newline) rest) line column
      else if isDigit ch then
        (let word = ch # takeWhile isDigit rest
         in Num word line column
            # lexLoop (dropWhile isDigit rest) line (column + length word))
      else if ch = dquote \<or> ch = squote then
        (let (str, atj) = strLoop ch rest [];
             j = 1 + (length rest - length atj);
             i' = j + 1
         in Str str line column
            # lexLoop (drop 1 atj) line (column + (i' - (j - length str))))
      else if isIdentStart ch then
        (let word = ch # takeWhile isIdentPart rest
         in (if word \<in> set keywordSet then Kw word line column else Ident word line column)
            # lexLoop (dropWhile isIdentPart rest) line (column + length word))
      else
        (let two = ch # take 1 rest
         in if two \<in> set twoCharSyms
            then Sym two line column # lexLoop (drop 1 rest) line (column + 2)
            else Sym [ch] line column # lexLoop rest line (column + 1)))"
  by pat_completeness auto
termination
  by (relation "measure (\<lambda>(cs, l, c). length cs)")
     (auto intro: le_imp_less_Suc length_dropWhile_le strLoop_rest)

declare lexLoop.simps [simp del]

text \<open>The function \<open>lex\<close> of lexer.ts; the name \<open>lex\<close> is taken by the lexicographic order
  on lists.\<close>

definition lexTokens :: "string \<Rightarrow> token list" where
  "lexTokens input = lexLoop input 1 1"

text \<open>
  For the statements about string literals. \<open>closingFound q cs\<close>: the text \<open>cs\<close> after an
  opening quote \<open>q\<close> holds an occurrence of \<open>q\<close> that no backslash escapes. \<open>unescape\<close>
  drops every escaping backslash and keeps the character after it. \<open>positionAfter\<close> is
  the line and column of the character that follows a text which starts at the given
  line and column. \<open>plainText\<close>: a text with no quote character and no \<open>//\<close>.
\<close>

fun closingFound :: "char \<Rightarrow> string \<Rightarrow> bool" where
  "closingFound q [] = False"
| "closingFound q (c # cs) =
     (if c = q then True
      else if c = backslash then (case cs of [] \<Rightarrow> False | d # ds \<Rightarrow> closingFound q ds)
      else closingFound q cs)"

fun unescape :: "string \<Rightarrow> string" where
  "unescape [] = []"
| "unescape (c # cs) =
     (if c = backslash then (case cs of [] \<Rightarrow> [] | d # ds \<Rightarrow> d # unescape ds)
      else c # unescape cs)"

fun positionAfter :: "string \<Rightarrow> nat \<times> nat \<Rightarrow> nat \<times> nat" where
  "positionAfter [] p = p"
| "positionAfter (c # cs) (l, k) =
     positionAfter cs (if c = newline then (l + 1, 1) else (l, k + 1))"

fun plainText :: "string \<Rightarrow> bool" where
  "plainText [] = True"
| "plainText (c # cs) =
     (c \<noteq> dquote \<and> c \<noteq> squote \<and> \<not> (c = CHR ''/'' \<and> take 1 cs = ''/'') \<and> plainText cs)"

section \<open>Abstract syntax (src/ast.ts)\<close>

text \<open>An optional field (\<open>alias?\<close>, \<open>superName?\<close>, \<open>init?\<close>, \<open>expr?\<close>, \<open>elseBody?\<close>)
  is an \<open>option\<close>; \<open>number\<close> literals are the integers the parser builds from digits.\<close>

datatype param = Param (pname: string) (ptypeName: string)

datatype expr =
    IntLiteral int
  | StringLiteral string
  | BoolLiteral bool
  | Identifier string
  | BinaryExpr string expr expr
  | UnaryExpr string expr
  | CallExpr expr "expr list"
  | NewExpr string "expr list"
  | FieldAccessExpr expr string
  | ThisExpr
  | SuperExpr "string option"
  | AssignmentExpr expr expr

datatype stmt =
    ImportStmt string "string option"
  | ClassDeclStmt classDecl
  | VarDecl string string "expr option"
  | FuncDecl string "param list" string "stmt list"
  | ExprStmt expr
  | ReturnStmt "expr option"
  | IfStmt expr "stmt list" "stmt list option"
and classDecl =
    ClassDecl (cname: string) (csuperName: "string option") (members: "classMember list")
and classMember =
    FieldDecl string string
  | MethodDecl (mname: string) (mparams: "param list") (returnType: string) (mbody: "stmt list")
  | ConstructorDecl "param list" "stmt list"

record program =
  body :: "stmt list"

text \<open>JavaScript truthiness of an optional string: \<open>undefined\<close> and the empty string
  are falsy.\<close>

fun truthyName :: "string option \<Rightarrow> bool" where
  "truthyName None = False"
| "truthyName (Some s) = (s \<noteq> [])"

section \<open>Parser (src/parser.ts)\<close>

text \<open>
  The parser reads \<open>this.tokens\<close> from \<open>this.pos\<close> on: a parsing function takes the
  tokens from \<open>pos\<close> and returns the tokens that remain. \<open>peek\<close> is the head of the list,
  \<open>next\<close> drops it. The token list of the lexer ends with \<open>eof\<close>, which no function
  consumes, so \<open>peek\<close> never reads past the end; reading \<open>t.type\<close> of \<open>undefined\<close> would
  be a JavaScript \<open>TypeError\<close>.
\<close>

datatype perror = CompileError string nat nat | TypeError

text \<open>\<open>None\<close>: the recursion depth given by the first argument of a parsing function
  was not enough.\<close>

type_synonym 'a presult = "(perror + 'a \<times> token list) option"

definition pret :: "'a \<Rightarrow> token list \<Rightarrow> 'a presult" where
  "pret x ts = Some (Inr (x, ts))"

definition perr :: "perror \<Rightarrow> 'a presult" where
  "perr e = Some (Inl e)"

definition pbind :: "'a presult \<Rightarrow> ('a \<Rightarrow> token list \<Rightarrow> 'b presult) \<Rightarrow> 'b presult" where
  "pbind m f =
     (case m of None \<Rightarrow> None | Some (Inl e) \<Rightarrow> Some (Inl e) | Some (Inr (x, ts)) \<Rightarrow> f x ts)"

lemma pbind_cong [fundef_cong]:
  "m = m' \<Longrightarrow> (\<And>x ts. m' = Some (Inr (x, ts)) \<Longrightarrow> f x ts = f' x ts) \<Longrightarrow> pbind m f = pbind m' f'"
  by (auto simp: pbind_def split: option.splits sum.splits)

text \<open>A step that needs no recursion (\<open>eatSym\<close>, \<open>expectIdent\<close>), followed by the rest.\<close>

definition pstep :: "perror + 'a \<Rightarrow> ('a \<Rightarrow> 'b presult) \<Rightarrow> 'b presult" where
  "pstep r f = (case r of Inl e \<Rightarrow> Some (Inl e) | Inr x \<Rightarrow> f x)"

lemma pstep_cong [fundef_cong]:
  "r = r' \<Longrightarrow> (\<And>x. r' = Inr x \<Longrightarrow> f x = f' x) \<Longrightarrow> pstep r f = pstep r' f'"
  by (auto simp: pstep_def split: sum.splits)

fun isSym :: "token \<Rightarrow> string \<Rightarrow> bool" where
  "isSym (Sym x l c) v = (x = v)"
| "isSym _ v = False"

fun isKw :: "token \<Rightarrow> string \<Rightarrow> bool" where
  "isKw (Kw x l c) v = (x = v)"
| "isKw _ v = False"

text \<open>\<open>t.type === 'eof' ? 'EOF' : (t as any).value || t.type\<close>: an empty value is falsy.\<close>

fun tokenStr :: "token \<Rightarrow> string" where
  "tokenStr (Eof l c) = ''EOF''"
| "tokenStr (Num v l c) = (if v = [] then ''num'' else v)"
| "tokenStr (Ident v l c) = (if v = [] then ''ident'' else v)"
| "tokenStr (Str v l c) = (if v = [] then ''str'' else v)"
| "tokenStr (Kw v l c) = (if v = [] then ''kw'' else v)"
| "tokenStr (Sym v l c) = (if v = [] then ''sym'' else v)"

fun tvalue :: "token \<Rightarrow> string" where
  "tvalue (Num v l c) = v"
| "tvalue (Ident v l c) = v"
| "tvalue (Str v l c) = v"
| "tvalue (Kw v l c) = v"
| "tvalue (Sym v l c) = v"
| "tvalue (Eof l c) = []"

definition makeError :: "string \<Rightarrow> token \<Rightarrow> perror" where
  "makeError message t = CompileError message (tline t) (tcolumn t)"

fun eatSym :: "string \<Rightarrow> token list \<Rightarrow> perror + token list" where
  "eatSym v [] = Inl TypeError"
| "eatSym v (t # rest) =
     (if isSym t v then Inr rest
      else Inl (makeError (''Expected '' @ [squote] @ v @ [squote] @ '', but got '' @ [squote]
                  @ tokenStr t @ [squote]) t))"

fun eatKw :: "string \<Rightarrow> token list \<Rightarrow> perror + token list" where
  "eatKw v [] = Inl TypeError"
| "eatKw v (t # rest) =
     (if isKw t v then Inr rest
      else Inl (makeError (''Expected keyword '' @ [squote] @ v @ [squote] @ '', but got ''
                  @ [squote] @ tokenStr t @ [squote]) t))"

fun optionalSemi :: "token list \<Rightarrow> perror + token list" where
  "optionalSemi [] = Inl TypeError"
| "optionalSemi (t # rest) = (if isSym t '';'' then Inr rest else Inr (t # rest))"

fun expectIdent :: "token list \<Rightarrow> perror + string \<times> token list" where
  "expectIdent [] = Inl TypeError"
| "expectIdent (Ident v l c # rest) = Inr (v, rest)"
| "expectIdent (t # rest) =
     Inl (makeError (''Expected identifier, but got '' @ [squote] @ tokenStr t @ [squote]) t)"

text \<open>\<open>Number(t.value)\<close> of a run of digits.\<close>

definition numberOf :: "string \<Rightarrow> int" where
  "numberOf v = fold (\<lambda>c acc. acc * 10 + (int (of_char c) - 48)) v 0"

definition binaryOps :: "string list" where
  "binaryOps = [''+'', ''-'', ''*'', ''/'', ''=='', ''!='', ''<'', ''>'', ''<='', ''>='']"

fun isBinaryOp :: "token \<Rightarrow> bool" where
  "isBinaryOp (Sym x l c) = (x \<in> set binaryOps)"
| "isBinaryOp _ = False"

definition unexpectedToken :: "token \<Rightarrow> 'a presult" where
  "unexpectedToken t =
     perr (makeError (''Unexpected token '' @ [squote] @ tokenStr t @ [squote]
             @ ''. Expected expression, literal, or identifier'') t)"

text \<open>
  The expression parsers. \<open>binaryLoop\<close> is the \<open>while\<close> loop of \<open>parseBinary\<close>,
  \<open>suffixLoop\<close> the loop over \<open>.field\<close> and \<open>(args)\<close> suffixes that \<open>parsePrimary\<close> runs
  after \<open>this\<close>, \<open>super\<close>, \<open>print\<close> and an identifier, \<open>argsLoop\<close> the loop of
  \<open>parseArgs\<close>.
\<close>

function (sequential)
    parseExpr :: "nat \<Rightarrow> token list \<Rightarrow> expr presult"
and parseAssignment :: "nat \<Rightarrow> token list \<Rightarrow> expr presult"
and parseBinary :: "nat \<Rightarrow> token list \<Rightarrow> expr presult"
and binaryLoop :: "nat \<Rightarrow> expr \<Rightarrow> token list \<Rightarrow> expr presult"
and parseUnary :: "nat \<Rightarrow> token list \<Rightarrow> expr presult"
and parsePrimary :: "nat \<Rightarrow> token list \<Rightarrow> expr presult"
and suffixLoop :: "nat \<Rightarrow> expr \<Rightarrow> token list \<Rightarrow> expr presult"
and parseArgs :: "nat \<Rightarrow> token list \<Rightarrow> (expr list) presult"
and argsLoop :: "nat \<Rightarrow> expr list \<Rightarrow> token list \<Rightarrow> (expr list) presult"
where
  "parseExpr 0 ts = None"
| "parseExpr (Suc n) ts = parseAssignment n ts"
| "parseAssignment 0 ts = None"
| "parseAssignment (Suc n) ts =
     pbind (parseBinary n ts) (\<lambda>left ts1.
       case ts1 of
         [] \<Rightarrow> perr TypeError
       | t # rest \<Rightarrow>
           if isSym t ''='' then
             pbind (parseAssignment n rest) (\<lambda>right ts2. pret (AssignmentExpr left right) ts2)
           else pret left ts1)"
| "parseBinary 0 ts = None"
| "parseBinary (Suc n) ts = pbind (parseUnary n ts) (\<lambda>left ts1. binaryLoop n left ts1)"
| "binaryLoop 0 left ts = None"
| "binaryLoop (Suc n) left ts =
     (case ts of
        [] \<Rightarrow> perr TypeError
      | t # rest \<Rightarrow>
          if isBinaryOp t then
            pbind (parseUnary n rest) (\<lambda>right ts1.
              binaryLoop n (BinaryExpr (tvalue t) left right) ts1)
          else pret left ts)"
| "parseUnary 0 ts = None"
| "parseUnary (Suc n) ts =
     (case ts of
        [] \<Rightarrow> perr TypeError
      | t # rest \<Rightarrow>
          if isSym t ''-'' \<or> isSym t ''+'' then
            pbind (parseUnary n rest) (\<lambda>e ts1. pret (UnaryExpr (tvalue t) e) ts1)
          else parsePrimary n ts)"
| "parsePrimary 0 ts = None"
| "parsePrimary (Suc n) ts =
     (case ts of
        [] \<Rightarrow> perr TypeError
      | t # rest \<Rightarrow>
          (case t of
             Num v l c \<Rightarrow> pret (IntLiteral (numberOf v)) rest
           | Str v l c \<Rightarrow> pret (StringLiteral v) rest
           | Kw v l c \<Rightarrow>
               if v = ''true'' \<or> v = ''false'' then pret (BoolLiteral (v = ''true'')) rest
               else if v = ''this'' then suffixLoop n ThisExpr rest
               else if v = ''super'' then suffixLoop n (SuperExpr None) rest
               else if v = ''new'' then
                 pstep (expectIdent rest) (\<lambda>(className, ts1).
                   pstep (eatSym ''('' ts1) (\<lambda>ts2.
                     pbind (parseArgs n ts2) (\<lambda>args ts3.
                       pstep (eatSym '')'' ts3) (\<lambda>ts4. pret (NewExpr className args) ts4))))
               else if v = ''print'' then suffixLoop n (Identifier ''print'') rest
               else unexpectedToken t
           | Ident v l c \<Rightarrow> suffixLoop n (Identifier v) rest
           | _ \<Rightarrow> unexpectedToken t))"
| "suffixLoop 0 e ts = None"
| "suffixLoop (Suc n) e ts =
     (case ts of
        [] \<Rightarrow> perr TypeError
      | t # rest \<Rightarrow>
          if isSym t ''.'' then
            pstep (expectIdent rest) (\<lambda>(field, ts1). suffixLoop n (FieldAccessExpr e field) ts1)
          else if isSym t ''('' then
            pbind (parseArgs n rest) (\<lambda>args ts1.
              pstep (eatSym '')'' ts1) (\<lambda>ts2. suffixLoop n (CallExpr e args) ts2))
          else pret e ts)"
| "parseArgs 0 ts = None"
| "parseArgs (Suc n) ts =
     (case ts of
        [] \<Rightarrow> perr TypeError
      | t # rest \<Rightarrow> if isSym t '')'' then pret [] ts else argsLoop n [] ts)"
| "argsLoop 0 args ts = None"
| "argsLoop (Suc n) args ts =
     pbind (parseExpr n ts) (\<lambda>e ts1.
       case ts1 of
         [] \<Rightarrow> perr TypeError
       | t # rest \<Rightarrow>
           if isSym t '','' then argsLoop n (args @ [e]) rest else pret (args @ [e]) ts1)"
  by pat_completeness auto
termination
  by (relation "measure (case_sum (case_sum (case_sum fst fst) (case_sum fst fst))
        (case_sum (case_sum fst fst) (case_sum fst (case_sum fst fst))))")
     simp_all

text \<open>The statement parsers. \<open>paramsLoop\<close> is the loop of \<open>parseParams\<close>.\<close>

definition parseImport :: "token list \<Rightarrow> stmt presult" where
  "parseImport ts =
     pstep (eatKw ''import'' ts) (\<lambda>ts1.
       pstep (expectIdent ts1) (\<lambda>(module, ts2).
         case ts2 of
           [] \<Rightarrow> perr TypeError
         | t # rest \<Rightarrow>
             if isKw t ''as'' then
               pstep (expectIdent rest) (\<lambda>(alias, ts3).
                 pstep (optionalSemi ts3) (\<lambda>ts4. pret (ImportStmt module (Some alias)) ts4))
             else pstep (optionalSemi ts2) (\<lambda>ts3. pret (ImportStmt module None) ts3)))"

fun paramsLoop :: "nat \<Rightarrow> param list \<Rightarrow> token list \<Rightarrow> (param list) presult" where
  "paramsLoop 0 params ts = None"
| "paramsLoop (Suc n) params ts =
     pstep (expectIdent ts) (\<lambda>(name, ts1).
       pstep (eatSym '':'' ts1) (\<lambda>ts2.
         pstep (expectIdent ts2) (\<lambda>(typeName, ts3).
           case ts3 of
             [] \<Rightarrow> perr TypeError
           | t # rest \<Rightarrow>
               if isSym t '','' then paramsLoop n (params @ [Param name typeName]) rest
               else pret (params @ [Param name typeName]) ts3)))"

definition parseParams :: "nat \<Rightarrow> token list \<Rightarrow> (param list) presult" where
  "parseParams n ts =
     (case ts of
        [] \<Rightarrow> perr TypeError
      | t # rest \<Rightarrow> if isSym t '')'' then pret [] ts else paramsLoop n [] ts)"

definition parseVarDecl :: "nat \<Rightarrow> token list \<Rightarrow> stmt presult" where
  "parseVarDecl n ts =
     pstep (eatKw ''let'' ts) (\<lambda>ts1.
       pstep (expectIdent ts1) (\<lambda>(name, ts2).
         pstep (eatSym '':'' ts2) (\<lambda>ts3.
           pstep (expectIdent ts3) (\<lambda>(typeName, ts4).
             case ts4 of
               [] \<Rightarrow> perr TypeError
             | t # rest \<Rightarrow>
                 if isSym t ''='' then
                   pbind (parseExpr n rest) (\<lambda>init ts5.
                     pstep (optionalSemi ts5) (\<lambda>ts6.
                       pret (VarDecl name typeName (Some init)) ts6))
                 else pstep (optionalSemi ts4) (\<lambda>ts5. pret (VarDecl name typeName None) ts5)))))"

definition parseExprStmt :: "nat \<Rightarrow> token list \<Rightarrow> stmt presult" where
  "parseExprStmt n ts =
     pbind (parseExpr n ts) (\<lambda>e ts1. pstep (optionalSemi ts1) (\<lambda>ts2. pret (ExprStmt e) ts2))"

text \<open>\<open>blockLoop\<close> is the loop of \<open>parseBlock\<close>; it stops in front of the closing brace.\<close>

function (sequential)
    parseBlock :: "nat \<Rightarrow> token list \<Rightarrow> (stmt list) presult"
and blockLoop :: "nat \<Rightarrow> stmt list \<Rightarrow> token list \<Rightarrow> (stmt list) presult"
and parseIfStmt :: "nat \<Rightarrow> token list \<Rightarrow> stmt presult"
where
  "parseBlock 0 ts = None"
| "parseBlock (Suc n) ts =
     pbind (blockLoop n [] ts) (\<lambda>stmts ts1. pstep (eatSym ''}'' ts1) (\<lambda>ts2. pret stmts ts2))"
| "blockLoop 0 stmts ts = None"
| "blockLoop (Suc n) stmts ts =
     (case ts of
        [] \<Rightarrow> perr TypeError
      | t # rest \<Rightarrow>
          if isSym t ''}'' then pret stmts ts
          else if isKw t ''let'' then
            pbind (parseVarDecl n ts) (\<lambda>s ts1. blockLoop n (stmts @ [s]) ts1)
          else if isKw t ''if'' then
            pbind (parseIfStmt n ts) (\<lambda>s ts1. blockLoop n (stmts @ [s]) ts1)
          else if isKw t ''return'' then
            (case rest of
               [] \<Rightarrow> perr TypeError
             | t2 # rest2 \<Rightarrow>
                 if isSym t2 '';'' then
                   pstep (optionalSemi rest) (\<lambda>ts1. blockLoop n (stmts @ [ReturnStmt None]) ts1)
                 else
                   pbind (parseExpr n rest) (\<lambda>e ts1.
                     pstep (optionalSemi ts1) (\<lambda>ts2.
                       blockLoop n (stmts @ [ReturnStmt (Some e)]) ts2)))
          else pbind (parseExprStmt n ts) (\<lambda>s ts1. blockLoop n (stmts @ [s]) ts1))"
| "parseIfStmt 0 ts = None"
| "parseIfStmt (Suc n) ts =
     pstep (eatKw ''if'' ts) (\<lambda>ts1.
       pstep (eatSym ''('' ts1) (\<lambda>ts2.
         pbind (parseExpr n ts2) (\<lambda>condition ts3.
           pstep (eatSym '')'' ts3) (\<lambda>ts4.
             pstep (eatSym ''{'' ts4) (\<lambda>ts5.
               pbind (parseBlock n ts5) (\<lambda>thenBody ts6.
                 case ts6 of
                   [] \<Rightarrow> perr TypeError
                 | t # rest \<Rightarrow>
                     if isKw t ''else'' then
                       pstep (eatSym ''{'' rest) (\<lambda>ts7.
                         pbind (parseBlock n ts7) (\<lambda>elseBody ts8.
                           pret (IfStmt condition thenBody (Some elseBody)) ts8))
                     else pret (IfStmt condition thenBody None) ts6))))))"
  by pat_completeness auto
termination
  by (relation "measure (case_sum fst (case_sum fst fst))") simp_all

text \<open>\<open>memberLoop\<close> is the loop of \<open>parseClass\<close> over the members; it stops in front of
  the closing brace.\<close>

fun memberLoop :: "nat \<Rightarrow> classMember list \<Rightarrow> token list \<Rightarrow> (classMember list) presult" where
  "memberLoop 0 ms ts = None"
| "memberLoop (Suc n) ms ts =
     (case ts of
        [] \<Rightarrow> perr TypeError
      | t # rest \<Rightarrow>
          if isSym t ''}'' then pret ms ts
          else if isKw t ''constructor'' then
            pstep (eatSym ''('' rest) (\<lambda>ts1.
              pbind (parseParams n ts1) (\<lambda>params ts2.
                pstep (eatSym '')'' ts2) (\<lambda>ts3.
                  pstep (eatSym ''{'' ts3) (\<lambda>ts4.
                    pbind (parseBlock n ts4) (\<lambda>b ts5.
                      memberLoop n (ms @ [ConstructorDecl params b]) ts5)))))
          else
            pstep (expectIdent ts) (\<lambda>(ident, ts1).
              case ts1 of
                [] \<Rightarrow> perr TypeError
              | t2 # rest2 \<Rightarrow>
                  if isSym t2 '':'' then
                    pstep (expectIdent rest2) (\<lambda>(typeName, ts2).
                      pstep (optionalSemi ts2) (\<lambda>ts3.
                        memberLoop n (ms @ [FieldDecl ident typeName]) ts3))
                  else if isSym t2 ''('' then
                    pbind (parseParams n rest2) (\<lambda>params ts2.
                      pstep (eatSym '')'' ts2) (\<lambda>ts3.
                        pstep (eatSym '':'' ts3) (\<lambda>ts4.
                          pstep (expectIdent ts4) (\<lambda>(rty, ts5).
                            pstep (eatSym ''{'' ts5) (\<lambda>ts6.
                              pbind (parseBlock n ts6) (\<lambda>b ts7.
                                memberLoop n (ms @ [MethodDecl ident params rty b]) ts7))))))
                  else
                    perr (makeError
                      ''Unexpected class member. Expected method or field declaration'' t2)))"

definition parseClass :: "nat \<Rightarrow> token list \<Rightarrow> classDecl presult" where
  "parseClass n ts =
     pstep (eatKw ''class'' ts) (\<lambda>ts1.
       pstep (expectIdent ts1) (\<lambda>(nm, ts2).
         case ts2 of
           [] \<Rightarrow> perr TypeError
         | t1 # rest \<Rightarrow>
             pstep (if isKw t1 ''extends''
                    then (case expectIdent rest of
                            Inl e \<Rightarrow> Inl e
                          | Inr (superNm, ts3) \<Rightarrow> Inr (Some superNm, ts3))
                    else Inr (None, ts2)) (\<lambda>(superNm, ts3).
               pstep (eatSym ''{'' ts3) (\<lambda>ts4.
                 pbind (memberLoop n [] ts4) (\<lambda>ms ts5.
                   pstep (eatSym ''}'' ts5) (\<lambda>ts6. pret (ClassDecl nm superNm ms) ts6))))))"

definition parseTopLevel :: "nat \<Rightarrow> token list \<Rightarrow> stmt presult" where
  "parseTopLevel n ts =
     (case ts of
        [] \<Rightarrow> perr TypeError
      | t # rest \<Rightarrow>
          if isKw t ''import'' then parseImport ts
          else if isKw t ''class'' then
            pbind (parseClass n ts) (\<lambda>d ts1. pret (ClassDeclStmt d) ts1)
          else if isKw t ''let'' then parseVarDecl n ts
          else parseExprStmt n ts)"

fun isEof :: "token \<Rightarrow> bool" where
  "isEof (Eof l c) = True"
| "isEof _ = False"

text \<open>The loop of \<open>parseProgram\<close>.\<close>

fun programLoop :: "nat \<Rightarrow> stmt list \<Rightarrow> token list \<Rightarrow> program presult" where
  "programLoop 0 stmts ts = None"
| "programLoop (Suc n) stmts ts =
     (case ts of
        [] \<Rightarrow> perr TypeError
      | t # rest \<Rightarrow>
          if isEof t then pret \<lparr>body = stmts\<rparr> ts
          else pbind (parseTopLevel n ts) (\<lambda>s ts1. programLoop n (stmts @ [s]) ts1))"

definition parseProgram :: "nat \<Rightarrow> token list \<Rightarrow> program presult" where
  "parseProgram n ts = programLoop n [] ts"

text \<open>\<open>new Parser(src).parseProgram()\<close>\<close>

definition parseSource :: "nat \<Rightarrow> string \<Rightarrow> program presult" where
  "parseSource n src = parseProgram n (lexTokens src)"

text \<open>\<open>le_res m m'\<close>: whatever \<open>m\<close> returns, \<open>m'\<close> returns too (more fuel, same result).\<close>

definition le_res :: "'a option \<Rightarrow> 'a option \<Rightarrow> bool" where
  "le_res m m' = (\<forall>r. m = Some r \<longrightarrow> m' = Some r)"

section \<open>Type checker (src/typecheck.ts)\<close>

record classInfo =
  name :: string
  superName :: "string option"
  fields' :: "(string \<times> string) list"
  methods :: "(string \<times> string list \<times> string) list"
  ctor :: "string list option"

text \<open>
  \<open>classes\<close> is a JavaScript \<open>Map\<close>, which iterates in insertion order: an association
  list with distinct keys, where \<open>set\<close> replaces the value of a key in place or appends
  a new key (\<^const>\<open>AList.update\<close>), \<open>get\<close> is \<^const>\<open>map_of\<close>.
\<close>

record typeChecker =
  classes :: "(string \<times> classInfo) list"
  errors :: "string list"

definition newTypeChecker :: typeChecker where
  "newTypeChecker = \<lparr>classes = [], errors = []\<rparr>"

definition has :: "('k \<times> 'v) list \<Rightarrow> 'k \<Rightarrow> bool" where
  "has m k = (map_of m k \<noteq> None)"

definition typeExists :: "typeChecker \<Rightarrow> string \<Rightarrow> bool" where
  "typeExists tc t =
     (if t \<in> set [''int'', ''Int'', ''string'', ''String'', ''bool'', ''Bool'', ''void'', ''Void'']
      then True else has (classes tc) t)"

text \<open>Pass 1: collect class headers.\<close>

fun collectHeader :: "stmt \<Rightarrow> typeChecker \<Rightarrow> typeChecker" where
  "collectHeader (ClassDeclStmt s) tc =
     (let tc1 = (if has (classes tc) (cname s)
                 then tc\<lparr>errors := errors tc @ [''Duplicate class '' @ cname s]\<rparr> else tc);
          info = \<lparr>name = cname s, superName = csuperName s, fields' = [], methods = [],
                  ctor = None\<rparr>
      in tc1\<lparr>classes := AList.update (cname s) info (classes tc1)\<rparr>)"
| "collectHeader _ tc = tc"

text \<open>Pass 2: fill members. The class information is an object updated in place.\<close>

fun fillMember :: "classMember \<Rightarrow> classInfo \<Rightarrow> classInfo" where
  "fillMember (FieldDecl n t) info = info\<lparr>fields' := AList.update n t (fields' info)\<rparr>"
| "fillMember (MethodDecl n ps ret b) info =
     info\<lparr>methods := AList.update n (map ptypeName ps, ret) (methods info)\<rparr>"
| "fillMember (ConstructorDecl ps b) info = info\<lparr>ctor := Some (map ptypeName ps)\<rparr>"

fun fillMembers :: "stmt \<Rightarrow> typeChecker \<Rightarrow> typeChecker" where
  "fillMembers (ClassDeclStmt s) tc =
     (case map_of (classes tc) (cname s) of
        None \<Rightarrow> tc
      | Some info \<Rightarrow>
          tc\<lparr>classes := AList.update (cname s) (fold fillMember (members s) info) (classes tc)\<rparr>)"
| "fillMembers _ tc = tc"

text \<open>Pass 3: super classes exist; the loop runs over the entries of \<open>classes\<close> in
  order, looking each super class up in the whole table \<open>cls\<close>.\<close>

fun checkSuper :: "(string \<times> classInfo) list \<Rightarrow> string \<times> classInfo \<Rightarrow> string list \<Rightarrow> string list" where
  "checkSuper cls (n, info) errs =
     (if truthyName (superName info) \<and> \<not> has cls (the (superName info))
      then errs @ [''Class '' @ n @ '' extends unknown '' @ the (superName info)]
      else errs)"

fun checkVarDecl :: "stmt \<Rightarrow> typeChecker \<Rightarrow> typeChecker" where
  "checkVarDecl (VarDecl n t i) tc =
     (if \<not> typeExists tc t
      then tc\<lparr>errors := errors tc @ [''Unknown type '' @ t @ '' in var '' @ n]\<rparr> else tc)"
| "checkVarDecl _ tc = tc"

definition checkState :: "typeChecker \<Rightarrow> program \<Rightarrow> typeChecker" where
  "checkState tc prog =
     (let tc1 = fold collectHeader (body prog) tc;
          tc2 = fold fillMembers (body prog) tc1;
          tc3 = tc2\<lparr>errors := fold (checkSuper (classes tc2)) (classes tc2) (errors tc2)\<rparr>
      in fold checkVarDecl (body prog) tc3)"

definition check :: "typeChecker \<Rightarrow> program \<Rightarrow> string list" where
  "check tc prog = errors (checkState tc prog)"

text \<open>
  The loop of \<open>isSubtype\<close> follows \<open>superName\<close> links for as long as \<open>cur\<close> is truthy; on
  a cyclic hierarchy it may never stop, which is the value \<open>None\<close>.
\<close>

partial_function (option) superLoop ::
  "(string \<times> classInfo) list \<Rightarrow> string option \<Rightarrow> string \<Rightarrow> bool option" where
  "superLoop cls cur b =
     (if truthyName cur then
        (if the cur = b then Some True
         else superLoop cls (case map_of cls (the cur) of None \<Rightarrow> None
                             | Some info \<Rightarrow> superName info) b)
      else Some False)"

definition isSubtype :: "typeChecker \<Rightarrow> string \<Rightarrow> string \<Rightarrow> bool option" where
  "isSubtype tc a b =
     (if a = b then Some True
      else if a = ''Void'' \<or> b = ''Void'' then Some False
      else if \<not> has (classes tc) a \<or> \<not> has (classes tc) b then Some False
      else superLoop (classes tc) (superName (the (map_of (classes tc) a))) b)"


text \<open>
  The links that the loop of \<open>isSubtype\<close> follows: from a declared class to its \<open>superName\<close>,
  when that is a non-empty name. \<open>reached cls cur b\<close>: the walk that starts at \<open>cur\<close> gets
  to \<open>b\<close>.
\<close>

definition superLinks :: "(string \<times> classInfo) list \<Rightarrow> (string \<times> string) set" where
  "superLinks cls =
     {(x, y). \<exists>info. map_of cls x = Some info \<and> superName info = Some y \<and> y \<noteq> []}"

definition reached :: "(string \<times> classInfo) list \<Rightarrow> string option \<Rightarrow> string \<Rightarrow> bool" where
  "reached cls cur b =
     (\<exists>c. cur = Some c \<and> c \<noteq> [] \<and> (c = b \<or> (c, b) \<in> (superLinks cls)\<^sup>+))"

text \<open>The eight spellings that \<open>typeExists\<close> lists.\<close>

definition builtinTypeNames :: "string set" where
  "builtinTypeNames =
     {''int'', ''Int'', ''string'', ''String'', ''bool'', ''Bool'', ''void'', ''Void''}"

section \<open>Interpreter (src/runtime.ts)\<close>

subsection \<open>Numbers\<close>

text \<open>
  The payload of an \<open>int\<close> value is a JavaScript number. It is modelled exactly on the
  integers, together with the special values that the interpreter's operations produce
  from integers: negative zero, the two infinities and NaN. Rounding of integers beyond
  \<open>2^53\<close> and of inexact quotients is outside the model.
\<close>

datatype jsnum = Fin int | NegZero | PosInf | NegInf | NaN

fun isNaN :: "jsnum \<Rightarrow> bool" where
  "isNaN NaN = True"
| "isNaN _ = False"

fun isInf :: "jsnum \<Rightarrow> bool" where
  "isInf PosInf = True"
| "isInf NegInf = True"
| "isInf _ = False"

fun isZero :: "jsnum \<Rightarrow> bool" where
  "isZero (Fin n) = (n = 0)"
| "isZero NegZero = True"
| "isZero _ = False"

fun isNeg :: "jsnum \<Rightarrow> bool" where
  "isNeg (Fin n) = (n < 0)"
| "isNeg NegZero = True"
| "isNeg NegInf = True"
| "isNeg _ = False"

fun intOf :: "jsnum \<Rightarrow> int" where
  "intOf (Fin n) = n"
| "intOf _ = 0"

definition signedInf :: "bool \<Rightarrow> jsnum" where
  "signedInf neg = (if neg then NegInf else PosInf)"

definition signedZero :: "bool \<Rightarrow> jsnum" where
  "signedZero neg = (if neg then NegZero else Fin 0)"

text \<open>Unary minus.\<close>

fun numNeg :: "jsnum \<Rightarrow> jsnum" where
  "numNeg (Fin n) = (if n = 0 then NegZero else Fin (- n))"
| "numNeg NegZero = Fin 0"
| "numNeg PosInf = NegInf"
| "numNeg NegInf = PosInf"
| "numNeg NaN = NaN"

text \<open>\<open>l + r\<close>: opposite infinities give NaN; a zero sum is negative only for
  \<open>-0 + -0\<close>.\<close>

definition numAdd :: "jsnum \<Rightarrow> jsnum \<Rightarrow> jsnum" where
  "numAdd a b =
     (if isNaN a \<or> isNaN b then NaN
      else if isInf a \<and> isInf b then (if a = b then a else NaN)
      else if isInf a then a
      else if isInf b then b
      else if a = NegZero \<and> b = NegZero then NegZero
      else Fin (intOf a + intOf b))"

definition numSub :: "jsnum \<Rightarrow> jsnum \<Rightarrow> jsnum" where
  "numSub a b = numAdd a (numNeg b)"

definition numMul :: "jsnum \<Rightarrow> jsnum \<Rightarrow> jsnum" where
  "numMul a b =
     (if isNaN a \<or> isNaN b then NaN
      else if (isInf a \<and> isZero b) \<or> (isZero a \<and> isInf b) then NaN
      else if isInf a \<or> isInf b then signedInf (isNeg a \<noteq> isNeg b)
      else if isZero a \<or> isZero b then signedZero (isNeg a \<noteq> isNeg b)
      else Fin (intOf a * intOf b))"

text \<open>\<open>Math.floor(l / r)\<close>: a zero divisor gives an infinity, or NaN for \<open>0 / 0\<close>; the
  floor of an infinity, of NaN or of a zero is that value itself.\<close>

definition numDivFloor :: "jsnum \<Rightarrow> jsnum \<Rightarrow> jsnum" where
  "numDivFloor a b =
     (if isNaN a \<or> isNaN b then NaN
      else if isInf a \<and> isInf b then NaN
      else if isZero a \<and> isZero b then NaN
      else if isInf a then signedInf (isNeg a \<noteq> isNeg b)
      else if isInf b then signedZero (isNeg a \<noteq> isNeg b)
      else if isZero b then signedInf (isNeg a \<noteq> isNeg b)
      else if isZero a then signedZero (isNeg a \<noteq> isNeg b)
      else Fin (intOf a div intOf b))"

text \<open>Comparisons: NaN is unordered and unequal to everything; the zeros are equal.\<close>

fun rank :: "jsnum \<Rightarrow> int" where
  "rank NegInf = - 1"
| "rank PosInf = 1"
| "rank _ = 0"

definition numEq :: "jsnum \<Rightarrow> jsnum \<Rightarrow> bool" where
  "numEq a b = (\<not> isNaN a \<and> \<not> isNaN b \<and> rank a = rank b \<and> intOf a = intOf b)"

definition numLt :: "jsnum \<Rightarrow> jsnum \<Rightarrow> bool" where
  "numLt a b = (\<not> isNaN a \<and> \<not> isNaN b \<and>
     (rank a < rank b \<or> (rank a = rank b \<and> intOf a < intOf b)))"

definition numLe :: "jsnum \<Rightarrow> jsnum \<Rightarrow> bool" where
  "numLe a b = (numLt a b \<or> numEq a b)"

text \<open>\<open>String(n)\<close>, for integers below \<open>10^21\<close> in absolute value.\<close>

definition digitChar :: "nat \<Rightarrow> char" where
  "digitChar d = ''0123456789'' ! d"

fun natToString :: "nat \<Rightarrow> string" where
  "natToString n =
     (if n < 10 then [digitChar n] else natToString (n div 10) @ [digitChar (n mod 10)])"

declare natToString.simps [simp del]

definition intToString :: "int \<Rightarrow> string" where
  "intToString i = (if i < 0 then ''-'' @ natToString (nat (- i)) else natToString (nat i))"

fun numToString :: "jsnum \<Rightarrow> string" where
  "numToString (Fin n) = intToString n"
| "numToString NegZero = ''0''"
| "numToString PosInf = ''Infinity''"
| "numToString NegInf = ''-Infinity''"
| "numToString NaN = ''NaN''"


subsection \<open>Values, environments and the runtime state\<close>

text \<open>
  An object value carries its class name and a reference to its \<open>fields\<close> map, which is
  shared by every copy of the value and updated in place: the maps live in \<open>store\<close>,
  addressed by position. Environments and field maps are JavaScript \<open>Map\<close>s, modelled
  as association lists. \<open>out\<close> collects the lines written by \<open>console.log\<close>.
\<close>

datatype Value =
    VInt jsnum
  | VString string
  | VBool bool
  | VObject string nat
  | VClass string
  | VNull

type_synonym env = "(string \<times> Value) list"

record runtime =
  rclasses :: "(string \<times> classDecl) list"
  globals :: env
  returnValue :: "Value option"
  hasReturned :: bool
  store :: "env list"
  out :: "string list"

text \<open>The parameter \<open>target\<close> of \<open>execStmt\<close> and \<open>evalExpr\<close> is a reference to a map:
  either \<open>this.globals\<close> itself, or the local environment of a method call.\<close>

datatype frame = Globals | Local env

definition targetSet :: "frame \<Rightarrow> string \<Rightarrow> Value \<Rightarrow> runtime \<Rightarrow> frame \<times> runtime" where
  "targetSet target k v rt =
     (case target of
        Globals \<Rightarrow> (Globals, rt\<lparr>globals := AList.update k v (globals rt)\<rparr>)
      | Local e \<Rightarrow> (Local (AList.update k v e), rt))"

text \<open>\<open>new Map(target)\<close>\<close>

definition targetCopy :: "frame \<Rightarrow> runtime \<Rightarrow> env" where
  "targetCopy target rt = (case target of Globals \<Rightarrow> globals rt | Local e \<Rightarrow> e)"

text \<open>The field map at an address; every address held by a value is below the length of
  the store, the other case is never reached.\<close>

definition fieldsAt :: "runtime \<Rightarrow> nat \<Rightarrow> env" where
  "fieldsAt rt a = (if a < length (store rt) then store rt ! a else [])"

text \<open>
  Results: \<open>None\<close> when the fuel runs out (the evaluation is not finished within the
  given recursion depth), \<open>Some (Inl (message, state))\<close> for a thrown \<open>Error\<close>,
  \<open>Some (Inr x)\<close> for a returned value.
\<close>

type_synonym 'a result = "(string \<times> runtime + 'a) option"

definition throw :: "string \<Rightarrow> runtime \<Rightarrow> 'a result" where
  "throw msg rt = Some (Inl (msg, rt))"

definition ret :: "'a \<Rightarrow> 'a result" where
  "ret x = Some (Inr x)"

definition andThen :: "'a result \<Rightarrow> ('a \<Rightarrow> 'b result) \<Rightarrow> 'b result" where
  "andThen m f = (case m of None \<Rightarrow> None | Some (Inl e) \<Rightarrow> Some (Inl e) | Some (Inr x) \<Rightarrow> f x)"

lemma andThen_cong [fundef_cong]:
  "m = m' \<Longrightarrow> (\<And>x. m' = Some (Inr x) \<Longrightarrow> f x = f' x) \<Longrightarrow> andThen m f = andThen m' f'"
  by (auto simp: andThen_def split: option.splits sum.splits)

definition newRuntime :: "program \<Rightarrow> runtime" where
  "newRuntime prog =
     (let cls = fold (\<lambda>s m. case s of ClassDeclStmt d \<Rightarrow> AList.update (cname d) d m | _ \<Rightarrow> m)
                  (body prog) []
      in \<lparr>rclasses = cls,
          globals = fold (\<lambda>(className, d) g. AList.update className (VClass className) g) cls [],
          returnValue = None, hasReturned = False, store = [], out = []\<rparr>)"

fun valToString :: "Value \<Rightarrow> string" where
  "valToString (VInt n) = numToString n"
| "valToString (VString s) = s"
| "valToString (VBool b) = (if b then ''true'' else ''false'')"
| "valToString (VObject c a) = ''<'' @ c @ '' object>''"
| "valToString _ = ''null''"

text \<open>\<open>console.log\<close> writes its arguments separated by single spaces (format directives
  in a first argument are not modelled).\<close>

fun joinSp :: "string list \<Rightarrow> string" where
  "joinSp [] = []"
| "joinSp [x] = x"
| "joinSp (x # y # ys) = x @ '' '' @ joinSp (y # ys)"

fun isIntV :: "Value \<Rightarrow> bool" where
  "isIntV (VInt n) = True"
| "isIntV _ = False"

fun isStringV :: "Value \<Rightarrow> bool" where
  "isStringV (VString s) = True"
| "isStringV _ = False"

fun numOf :: "Value \<Rightarrow> jsnum" where
  "numOf (VInt n) = n"
| "numOf _ = NaN"

definition boolInt :: "bool \<Rightarrow> Value" where
  "boolInt b = VInt (Fin (if b then 1 else 0))"

text \<open>The operator chain of the \<open>BinaryExpr\<close> case (lines 239 to 261); \<open>None\<close> is the
  fall through to \<open>throw new Error("Unsupported binary op or operand types")\<close>.\<close>

definition binaryOp :: "string \<Rightarrow> Value \<Rightarrow> Value \<Rightarrow> Value option" where
  "binaryOp op l r =
     (if op = ''+'' then
        (if isStringV l \<or> isStringV r then Some (VString (valToString l @ valToString r))
         else if isIntV l \<and> isIntV r then Some (VInt (numAdd (numOf l) (numOf r)))
         else None)
      else if op = ''-'' \<and> isIntV l \<and> isIntV r then Some (VInt (numSub (numOf l) (numOf r)))
      else if op = ''*'' \<and> isIntV l \<and> isIntV r then Some (VInt (numMul (numOf l) (numOf r)))
      else if op = ''/'' \<and> isIntV l \<and> isIntV r then
        Some (VInt (numDivFloor (numOf l) (numOf r)))
      else if op = ''=='' \<and> isIntV l \<and> isIntV r then Some (boolInt (numEq (numOf l) (numOf r)))
      else if op = ''!='' \<and> isIntV l \<and> isIntV r then
        Some (boolInt (\<not> numEq (numOf l) (numOf r)))
      else if op = ''<'' \<and> isIntV l \<and> isIntV r then Some (boolInt (numLt (numOf l) (numOf r)))
      else if op = ''>'' \<and> isIntV l \<and> isIntV r then Some (boolInt (numLt (numOf r) (numOf l)))
      else if op = ''<='' \<and> isIntV l \<and> isIntV r then Some (boolInt (numLe (numOf l) (numOf r)))
      else if op = ''>='' \<and> isIntV l \<and> isIntV r then Some (boolInt (numLe (numOf r) (numOf l)))
      else None)"

text \<open>The \<open>UnaryExpr\<close> case; \<open>None\<close> is the fall through to the \<open>throw\<close>.\<close>

definition unaryOp :: "string \<Rightarrow> Value \<Rightarrow> Value option" where
  "unaryOp op operand =
     (if op = ''-'' then (if isIntV operand then Some (VInt (numNeg (numOf operand))) else None)
      else if op = ''+'' then (if isIntV operand then Some (VInt (numOf operand)) else None)
      else None)"

fun isTruthy :: "Value \<Rightarrow> bool" where
  "isTruthy (VInt n) = (\<not> numEq n (Fin 0))"
| "isTruthy (VBool b) = b"
| "isTruthy _ = False"

text \<open>The parameter loop of a call: it stops at the shorter of the two lists.\<close>

fun bindParams :: "param list \<Rightarrow> Value list \<Rightarrow> env \<Rightarrow> env" where
  "bindParams (p # ps) (a # as) localEnv = bindParams ps as (AList.update (pname p) a localEnv)"
| "bindParams _ _ localEnv = localEnv"

fun isMethodNamed :: "string \<Rightarrow> classMember \<Rightarrow> bool" where
  "isMethodNamed methodName (MethodDecl n ps rty b) = (n = methodName)"
| "isMethodNamed methodName _ = False"

fun isConstructorDecl :: "classMember \<Rightarrow> bool" where
  "isConstructorDecl (ConstructorDecl ps b) = True"
| "isConstructorDecl _ = False"

text \<open>The loop of \<open>findMethod\<close> walks up the \<open>superName\<close> chain; on a cyclic hierarchy
  without the method it never returns (\<open>None\<close>). \<open>Some None\<close> is \<open>undefined\<close>.\<close>

partial_function (option) findMethodLoop ::
  "(string \<times> classDecl) list \<Rightarrow> classDecl option \<Rightarrow> string \<Rightarrow> classMember option option" where
  "findMethodLoop cls cur methodName =
     (case cur of
        None \<Rightarrow> Some None
      | Some c \<Rightarrow>
          (case find (isMethodNamed methodName) (members c) of
             Some m \<Rightarrow> Some (Some m)
           | None \<Rightarrow>
               if \<not> truthyName (csuperName c) then Some None
               else findMethodLoop cls (map_of cls (the (csuperName c))) methodName))"

declare findMethodLoop.simps [code]
declare superLoop.simps [code]

definition findMethod :: "runtime \<Rightarrow> string \<Rightarrow> string \<Rightarrow> classMember option option" where
  "findMethod rt className methodName =
     findMethodLoop (rclasses rt) (map_of (rclasses rt) className) methodName"

definition initFields :: "classDecl \<Rightarrow> env" where
  "initFields cls =
     fold (\<lambda>m fs. case m of FieldDecl n t \<Rightarrow> AList.update n VNull fs | _ \<Rightarrow> fs) (members cls) []"



subsection \<open>Evaluation\<close>

text \<open>
  \<open>evalExpr\<close> and \<open>execStmt\<close> call each other, and a method call runs a body taken from
  the class table, so the recursion can be unbounded: the first argument bounds the
  depth of the recursion. \<open>evalArgs\<close> is \<open>e.args.map(a => this.evalExpr(a, target))\<close>,
  \<open>execBlock\<close> the loop over the statements of a branch of an \<open>if\<close>, \<open>execBody\<close> the loop
  over the body of a called method (lines 197 to 204 and 222 to 229).
\<close>

function (sequential) evalExpr :: "nat \<Rightarrow> expr \<Rightarrow> frame \<Rightarrow> runtime \<Rightarrow> (Value \<times> frame \<times> runtime) result"
and evalArgs :: "nat \<Rightarrow> expr list \<Rightarrow> frame \<Rightarrow> runtime \<Rightarrow> (Value list \<times> frame \<times> runtime) result"
and execStmt :: "nat \<Rightarrow> stmt \<Rightarrow> frame \<Rightarrow> runtime \<Rightarrow> (bool \<times> frame \<times> runtime) result"
and execBlock :: "nat \<Rightarrow> stmt list \<Rightarrow> frame \<Rightarrow> runtime \<Rightarrow> (bool \<times> frame \<times> runtime) result"
and execBody :: "nat \<Rightarrow> stmt list \<Rightarrow> frame \<Rightarrow> runtime \<Rightarrow> (Value \<times> frame \<times> runtime) result"
where
  "evalExpr 0 e target rt = None"
| "evalExpr (Suc n) (IntLiteral v) target rt = ret (VInt (Fin v), target, rt)"
| "evalExpr (Suc n) (StringLiteral v) target rt = ret (VString v, target, rt)"
| "evalExpr (Suc n) (BoolLiteral v) target rt = ret (VBool v, target, rt)"
| "evalExpr (Suc n) (Identifier nm) target rt =
     (case map_of (globals rt) nm of
        Some v \<Rightarrow> ret (v, target, rt)
      | None \<Rightarrow> throw (''Unknown identifier '' @ nm) rt)"
| "evalExpr (Suc n) (NewExpr className args) target rt =
     (case map_of (rclasses rt) className of
        None \<Rightarrow> throw (''Unknown class '' @ className) rt
      | Some cls \<Rightarrow>
          (let obj = VObject className (length (store rt));
               rt1 = rt\<lparr>store := store rt @ [initFields cls]\<rparr>
           in case find isConstructorDecl (members cls) of
                Some decl \<Rightarrow> ret (obj, target, rt1)
              | None \<Rightarrow> ret (obj, target, rt1)))"
| "evalExpr (Suc n) (FieldAccessExpr objE field) target rt =
     andThen (evalExpr n objE target rt) (\<lambda>(obj, t1, rt1).
       case obj of
         VObject c a \<Rightarrow>
           ret (case map_of (fieldsAt rt1 a) field of Some v \<Rightarrow> v | None \<Rightarrow> VNull, t1, rt1)
       | VClass c \<Rightarrow> ret (VClass c, t1, rt1)
       | _ \<Rightarrow> throw ''Invalid field access on non-object'' rt1)"
| "evalExpr (Suc n) (CallExpr callee args) target rt =
     (case callee of
        Identifier nm \<Rightarrow>
          if nm = ''print'' then
            andThen (evalArgs n args target rt) (\<lambda>(vs, t1, rt1).
              ret (VNull, t1, rt1\<lparr>out := out rt1 @ [joinSp (map valToString vs)]\<rparr>))
          else throw ''Unsupported call form'' rt
      | FieldAccessExpr objE methodName \<Rightarrow>
          andThen (evalExpr n objE target rt) (\<lambda>(obj, t1, rt1).
            case obj of
              VClass className \<Rightarrow>
                (case findMethod rt1 className methodName of
                   None \<Rightarrow> None
                 | Some None \<Rightarrow>
                     throw (''Method '' @ methodName @ '' not found on class '' @ className) rt1
                 | Some (Some method) \<Rightarrow>
                     andThen (evalArgs n args t1 rt1) (\<lambda>(argVals, t2, rt2).
                       let localEnv = bindParams (mparams method) argVals (targetCopy t2 rt2)
                       in andThen (execBody n (mbody method) (Local localEnv) rt2)
                            (\<lambda>(result, t3, rt3). ret (result, t2, rt3))))
            | VObject className a \<Rightarrow>
                (case findMethod rt1 className methodName of
                   None \<Rightarrow> None
                 | Some None \<Rightarrow>
                     throw (''Method '' @ methodName @ '' not found on '' @ className) rt1
                 | Some (Some method) \<Rightarrow>
                     andThen (evalArgs n args t1 rt1) (\<lambda>(argVals, t2, rt2).
                       let localEnv = bindParams (mparams method) argVals
                                        (AList.update ''this'' obj (targetCopy t2 rt2))
                       in andThen (execBody n (mbody method) (Local localEnv) rt2)
                            (\<lambda>(result, t3, rt3). ret (result, t2, rt3))))
            | _ \<Rightarrow> throw ''Call on non-object/non-class'' rt1)
      | _ \<Rightarrow> throw ''Unsupported call form'' rt)"
| "evalExpr (Suc n) (BinaryExpr op left right) target rt =
     andThen (evalExpr n left target rt) (\<lambda>(l, t1, rt1).
       andThen (evalExpr n right t1 rt1) (\<lambda>(r, t2, rt2).
         case binaryOp op l r of
           Some v \<Rightarrow> ret (v, t2, rt2)
         | None \<Rightarrow> throw ''Unsupported binary op or operand types'' rt2))"
| "evalExpr (Suc n) (UnaryExpr op e) target rt =
     andThen (evalExpr n e target rt) (\<lambda>(operand, t1, rt1).
       case unaryOp op operand of
         Some v \<Rightarrow> ret (v, t1, rt1)
       | None \<Rightarrow> throw ''Unsupported unary op or operand type'' rt1)"
| "evalExpr (Suc n) (AssignmentExpr targetE valueE) target rt =
     andThen (evalExpr n valueE target rt) (\<lambda>(v, t1, rt1).
       case targetE of
         Identifier nm \<Rightarrow> (let (t2, rt2) = targetSet t1 nm v rt1 in ret (v, t2, rt2))
       | FieldAccessExpr objE field \<Rightarrow>
           andThen (evalExpr n objE t1 rt1) (\<lambda>(obj, t2, rt2).
             case obj of
               VObject c a \<Rightarrow>
                 ret (v, t2, rt2\<lparr>store := (store rt2)[a := AList.update field v (fieldsAt rt2 a)]\<rparr>)
             | _ \<Rightarrow> throw ''Cannot assign to field of non-object'' rt2)
       | _ \<Rightarrow> throw ''Invalid assignment target'' rt1)"
| "evalExpr (Suc n) ThisExpr target rt = throw ''Eval not implemented for ThisExpr'' rt"
| "evalExpr (Suc n) (SuperExpr m) target rt = throw ''Eval not implemented for SuperExpr'' rt"
| "evalArgs 0 es target rt = None"
| "evalArgs (Suc n) [] target rt = ret ([], target, rt)"
| "evalArgs (Suc n) (a # as) target rt =
     andThen (evalExpr n a target rt) (\<lambda>(v, t1, rt1).
       andThen (evalArgs n as t1 rt1) (\<lambda>(vs, t2, rt2). ret (v # vs, t2, rt2)))"
| "execStmt 0 s target rt = None"
| "execStmt (Suc n) (ImportStmt m a) target rt = ret (False, target, rt)"
| "execStmt (Suc n) (VarDecl nm ty init) target rt =
     (case init of
        Some e \<Rightarrow>
          andThen (evalExpr n e target rt) (\<lambda>(v, t1, rt1).
            let (t2, rt2) = targetSet t1 nm v rt1 in ret (False, t2, rt2))
      | None \<Rightarrow> (let (t2, rt2) = targetSet target nm VNull rt in ret (False, t2, rt2)))"
| "execStmt (Suc n) (ExprStmt e) target rt =
     andThen (evalExpr n e target rt) (\<lambda>(v, t1, rt1). ret (False, t1, rt1))"
| "execStmt (Suc n) (ReturnStmt e) target rt = ret (True, target, rt)"
| "execStmt (Suc n) (IfStmt condition thenBody elseBody) target rt =
     andThen (evalExpr n condition target rt) (\<lambda>(cond, t1, rt1).
       if isTruthy cond then execBlock n thenBody t1 rt1
       else (case elseBody of
               Some stmts \<Rightarrow> execBlock n stmts t1 rt1
             | None \<Rightarrow> ret (False, t1, rt1)))"
| "execStmt (Suc n) (ClassDeclStmt d) target rt = ret (False, target, rt)"
| "execStmt (Suc n) (FuncDecl nm ps rty b) target rt = ret (False, target, rt)"
| "execBlock 0 ss target rt = None"
| "execBlock (Suc n) [] target rt = ret (False, target, rt)"
| "execBlock (Suc n) (s # ss) target rt =
     andThen (execStmt n s target rt) (\<lambda>(returned, t1, rt1).
       if returned then ret (True, t1, rt1) else execBlock n ss t1 rt1)"
| "execBody 0 ss target rt = None"
| "execBody (Suc n) [] target rt = ret (VNull, target, rt)"
| "execBody (Suc n) (s # ss) target rt =
     (case s of
        ReturnStmt e \<Rightarrow>
          (case e of Some ex \<Rightarrow> evalExpr n ex target rt | None \<Rightarrow> ret (VNull, target, rt))
      | _ \<Rightarrow>
          andThen (execStmt n s target rt) (\<lambda>(returned, t1, rt1). execBody n ss t1 rt1))"
  by pat_completeness auto
termination
  by (relation "measure (case_sum (case_sum fst fst) (case_sum fst (case_sum fst fst)))")
     simp_all

text \<open>\<open>run\<close>: the top-level statements in order, each with \<open>target = this.globals\<close>.\<close>

fun runStmts :: "nat \<Rightarrow> stmt list \<Rightarrow> runtime \<Rightarrow> runtime result" where
  "runStmts n [] rt = ret rt"
| "runStmts n (s # ss) rt =
     andThen (execStmt n s Globals rt) (\<lambda>(returned, t1, rt1).
       if hasReturned rt1 then ret rt1 else runStmts n ss rt1)"

definition run :: "nat \<Rightarrow> program \<Rightarrow> runtime \<Rightarrow> runtime result" where
  "run n prog rt = runStmts n (body prog) rt"

text \<open>What the run wrote to standard output: every \<open>console.log\<close> line ends with a
  newline.\<close>

definition stdoutText :: "runtime \<Rightarrow> string" where
  "stdoutText rt = concat (map (\<lambda>l. l @ [newline]) (out rt))"


section \<open>Driver (src/main.ts), interpreter mode\<close>

text \<open>
  Parse the source, prepend the statements of the standard-library files found on disk
  (\<open>stdlibBodies\<close>, a parameter here), type-check and stop on any type error, then run.
\<close>

datatype outcome =
    ParseFailed perror
  | TypeErrors "string list"
  | RuntimeFailed string runtime
  | Finished runtime

definition mainRun :: "stmt list \<Rightarrow> nat \<Rightarrow> string \<Rightarrow> outcome option" where
  "mainRun stdlibBodies n src =
     (case parseSource n src of
        None \<Rightarrow> None
      | Some (Inl e) \<Rightarrow> Some (ParseFailed e)
      | Some (Inr (prog, rest)) \<Rightarrow>
          (let prog' = \<lparr>body = stdlibBodies @ body prog\<rparr>;
               errs = check newTypeChecker prog'
           in if errs \<noteq> [] then Some (TypeErrors errs)
              else (case run n prog' (newRuntime prog') of
                      None \<Rightarrow> None
                    | Some (Inl (msg, rt)) \<Rightarrow> Some (RuntimeFailed msg rt)
                    | Some (Inr rt) \<Rightarrow> Some (Finished rt))))"

fun outcomeStdout :: "outcome \<Rightarrow> string" where
  "outcomeStdout (ParseFailed e) = []"
| "outcomeStdout (TypeErrors errs) = []"
| "outcomeStdout (RuntimeFailed msg rt) = stdoutText rt"
| "outcomeStdout (Finished rt) = stdoutText rt"

fun runtimeError :: "outcome \<Rightarrow> string option" where
  "runtimeError (RuntimeFailed msg rt) = Some msg"
| "runtimeError _ = None"


section \<open>Properties of the lexer\<close>

lemma strLoop_unterminated:
  "\<not> closingFound q cs \<Longrightarrow> strLoop q cs acc = (acc @ unescape cs, [])"
proof (induction q cs acc rule: strLoop.induct)
  case (1 quote str)
  show ?case by simp
next
  case (2 quote c cs str)
  show ?case
  proof (cases cs)
    case Nil
    then show ?thesis using 2 by (simp split: if_splits)
  next
    case (Cons d ds)
    then show ?thesis using 2 by (auto split: if_splits)
  qed
qed

lemma positionAfter_append:
  "positionAfter (xs @ ys) p = positionAfter ys (positionAfter xs p)"
proof (induction xs arbitrary: p)
  case Nil
  show ?case by simp
next
  case (Cons c cs)
  show ?case by (cases p) (simp add: Cons.IH)
qed

lemma positionAfter_line:
  "newline \<notin> set xs \<Longrightarrow> positionAfter xs (l, k) = (l, k + length xs)"
  by (induction xs arbitrary: k) auto

lemma takeWhile_stop: "\<not> P y \<Longrightarrow> takeWhile P (xs @ y # ys) = takeWhile P xs"
  by (induction xs) auto

lemma dropWhile_stop: "\<not> P y \<Longrightarrow> dropWhile P (xs @ y # ys) = dropWhile P xs @ y # ys"
  by (induction xs) auto

lemma plainText_suffix: "plainText (xs @ ys) \<Longrightarrow> plainText ys"
  by (induction xs) auto

lemma plainText_dropWhile: "plainText xs \<Longrightarrow> plainText (dropWhile P xs)"
  using plainText_suffix [of "takeWhile P xs" "dropWhile P xs"] by simp

lemma quote_props:
  assumes "q = dquote \<or> q = squote"
  shows "\<not> isSpace q" "q \<noteq> CHR ''/''" "\<not> isDigit q" "\<not> isIdentPart q" "\<not> isIdentStart q"
    "[c, q] \<notin> set twoCharSyms"
  using assms
  by (auto simp: dquote_def squote_def isSpace_def isDigit_def isIdentPart_def isIdentStart_def
      twoCharSyms_def)

lemma no_newline_run:
  "newline \<notin> set (takeWhile isDigit xs)" "newline \<notin> set (takeWhile isIdentPart xs)"
  by (auto simp: newline_def isDigit_def isIdentPart_def isIdentStart_def dest!: set_takeWhileD)

lemma lexLoop_plain_prefix:
  assumes q: "q = dquote \<or> q = squote"
  shows "plainText pre \<Longrightarrow>
    \<exists>toks. lexLoop (pre @ q # rest) l k =
      toks @ lexLoop (q # rest) (fst (positionAfter pre (l, k))) (snd (positionAfter pre (l, k)))"
proof (induction pre arbitrary: l k rule: length_induct)
  case (1 pre)
  note IH = 1(1)
  show ?case
  proof (cases pre)
    case Nil
    then show ?thesis by (intro exI [of _ "[]"]) simp
  next
    case (Cons ch p)
    have unf: "lexLoop (pre @ q # rest) l k = lexLoop (ch # (p @ q # rest)) l k"
      using Cons by simp
    have plain: "plainText p" and chq: "ch \<noteq> dquote" "ch \<noteq> squote"
      and nocomment: "\<not> (ch = CHR ''/'' \<and> take 1 p = ''/'')"
      using 1(2) Cons by simp_all
    have nocomment': "\<not> (ch = CHR ''/'' \<and> take 1 (p @ q # rest) = ''/'')"
      using nocomment quote_props(2) [OF q] by (cases p) auto
    have step: "\<And>s l' k'. length s \<le> length p \<Longrightarrow> plainText s \<Longrightarrow>
       \<exists>toks. lexLoop (s @ q # rest) l' k' =
         toks @ lexLoop (q # rest) (fst (positionAfter s (l', k'))) (snd (positionAfter s (l', k')))"
      using IH Cons by (simp add: le_imp_less_Suc)
    show ?thesis
    proof (cases "isSpace ch")
      case True
      show ?thesis
      proof (cases "ch = newline")
        case nl: True
        have eq: "lexLoop (pre @ q # rest) l k = lexLoop (p @ q # rest) (l + 1) 1"
          unfolding unf using True nl by (subst lexLoop.simps(2)) auto
        have pos: "positionAfter pre (l, k) = positionAfter p (l + 1, 1)"
          using Cons nl by simp
        from step [of p "l + 1" 1] plain show ?thesis unfolding eq pos by simp
      next
        case nl: False
        have eq: "lexLoop (pre @ q # rest) l k = lexLoop (p @ q # rest) l (k + 1)"
          unfolding unf using True nl by (subst lexLoop.simps(2)) auto
        have pos: "positionAfter pre (l, k) = positionAfter p (l, k + 1)"
          using Cons nl by simp
        from step [of p l "k + 1"] plain show ?thesis unfolding eq pos by simp
      qed
    next
      case notspace: False
      then have nonl: "ch \<noteq> newline" by (auto simp: isSpace_def newline_def)
      show ?thesis
      proof (cases "isDigit ch")
        case True
        let ?w = "takeWhile isDigit p" and ?r = "dropWhile isDigit p"
        have eq: "lexLoop (pre @ q # rest) l k =
            Num (ch # ?w) l k # lexLoop (?r @ q # rest) l (k + length (ch # ?w))"
          unfolding unf using notspace nocomment' True quote_props(3) [OF q]
          by (subst lexLoop.simps(2)) (auto simp: Let_def takeWhile_stop dropWhile_stop)
        have pos: "positionAfter pre (l, k) = positionAfter ?r (l, k + length (ch # ?w))"
        proof -
          have "pre = (ch # ?w) @ ?r" using Cons by simp
          then have "positionAfter pre (l, k) = positionAfter ?r (positionAfter (ch # ?w) (l, k))"
            by (metis positionAfter_append)
          moreover have "positionAfter (ch # ?w) (l, k) = (l, k + length (ch # ?w))"
            using nonl no_newline_run(1) [of p] by (intro positionAfter_line) simp
          ultimately show ?thesis by simp
        qed
        from step [of ?r l "k + length (ch # ?w)"] plain
        obtain toks where "lexLoop (?r @ q # rest) l (k + length (ch # ?w)) =
            toks @ lexLoop (q # rest) (fst (positionAfter ?r (l, k + length (ch # ?w))))
              (snd (positionAfter ?r (l, k + length (ch # ?w))))"
          using length_dropWhile_le [of isDigit p] plainText_dropWhile by blast
        then show ?thesis unfolding eq pos by (intro exI [of _ "Num (ch # ?w) l k # toks"]) simp
      next
        case notdigit: False
        show ?thesis
        proof (cases "isIdentStart ch")
          case True
          let ?w = "takeWhile isIdentPart p" and ?r = "dropWhile isIdentPart p"
          let ?t = "if ch # ?w \<in> set keywordSet then Kw (ch # ?w) l k else Ident (ch # ?w) l k"
          have eq: "lexLoop (pre @ q # rest) l k =
              ?t # lexLoop (?r @ q # rest) l (k + length (ch # ?w))"
            unfolding unf using notspace nocomment' notdigit chq True quote_props(4) [OF q]
            by (subst lexLoop.simps(2)) (auto simp: Let_def takeWhile_stop dropWhile_stop)
          have pos: "positionAfter pre (l, k) = positionAfter ?r (l, k + length (ch # ?w))"
          proof -
            have "pre = (ch # ?w) @ ?r" using Cons by simp
            then have "positionAfter pre (l, k) = positionAfter ?r (positionAfter (ch # ?w) (l, k))"
              by (metis positionAfter_append)
            moreover have "positionAfter (ch # ?w) (l, k) = (l, k + length (ch # ?w))"
              using nonl no_newline_run(2) [of p] by (intro positionAfter_line) simp
            ultimately show ?thesis by simp
          qed
          from step [of ?r l "k + length (ch # ?w)"] plain
          obtain toks where "lexLoop (?r @ q # rest) l (k + length (ch # ?w)) =
              toks @ lexLoop (q # rest) (fst (positionAfter ?r (l, k + length (ch # ?w))))
                (snd (positionAfter ?r (l, k + length (ch # ?w))))"
            using length_dropWhile_le [of isIdentPart p] plainText_dropWhile by blast
          then show ?thesis unfolding eq pos by (intro exI [of _ "?t # toks"]) simp
        next
          case notident: False
          show ?thesis
          proof (cases "ch # take 1 (p @ q # rest) \<in> set twoCharSyms")
            case True
            then obtain d p' where p: "p = d # p'"
              using quote_props(6) [OF q, of ch] by (cases p) auto
            have two: "ch # [d] \<in> set twoCharSyms" using True p by simp
            then have dnl: "d \<noteq> newline" by (auto simp: twoCharSyms_def newline_def)
            have eq: "lexLoop (pre @ q # rest) l k =
                Sym [ch, d] l k # lexLoop (p' @ q # rest) l (k + 2)"
              unfolding unf using notspace nocomment' notdigit chq notident True p
              by (subst lexLoop.simps(2)) (auto simp: Let_def)
            have pos: "positionAfter pre (l, k) = positionAfter p' (l, k + 2)"
              using Cons p nonl dnl by simp
            have "plainText p'" using plain p by simp
            with step [of p' l "k + 2"] p
            obtain toks where "lexLoop (p' @ q # rest) l (k + 2) =
                toks @ lexLoop (q # rest) (fst (positionAfter p' (l, k + 2)))
                  (snd (positionAfter p' (l, k + 2)))"
              by auto
            then show ?thesis unfolding eq pos by (intro exI [of _ "Sym [ch, d] l k # toks"]) simp
          next
            case False
            have eq: "lexLoop (pre @ q # rest) l k =
                Sym [ch] l k # lexLoop (p @ q # rest) l (k + 1)"
              unfolding unf using notspace nocomment' notdigit chq notident False
              by (subst lexLoop.simps(2)) (auto simp: Let_def)
            have pos: "positionAfter pre (l, k) = positionAfter p (l, k + 1)"
              using Cons nonl by simp
            from step [of p l "k + 1"] plain
            obtain toks where "lexLoop (p @ q # rest) l (k + 1) =
                toks @ lexLoop (q # rest) (fst (positionAfter p (l, k + 1)))
                  (snd (positionAfter p (l, k + 1)))"
              by auto
            then show ?thesis unfolding eq pos by (intro exI [of _ "Sym [ch] l k # toks"]) simp
          qed
        qed
      qed
    qed
  qed
qed


lemma length_unescape: "length (unescape cs) \<le> length cs"
proof (induction cs rule: unescape.induct)
  case 1
  show ?case by simp
next
  case (2 c cs)
  then show ?case by (cases cs) (auto intro: le_SucI)
qed

lemma closingFound_absent: "q \<notin> set cs \<Longrightarrow> \<not> closingFound q cs"
proof (induction q cs rule: closingFound.induct)
  case (1 q)
  show ?case by simp
next
  case (2 q c cs)
  then show ?case by (cases cs) auto
qed

lemma unescape_plain: "backslash \<notin> set cs \<Longrightarrow> unescape cs = cs"
  by (induction cs rule: unescape.induct) auto

lemma lexLoop_unterminated:
  assumes "q = dquote \<or> q = squote" and "\<not> closingFound q rest"
  shows "lexLoop (q # rest) line column =
           [Str (unescape rest) line column,
            Eof line (column + 1 + length (unescape rest))]"
proof -
  have sl: "strLoop q rest [] = (unescape rest, [])"
    using strLoop_unterminated [OF assms(2), of "[]"] by simp
  have len: "length (unescape rest) \<le> length rest" by (rule length_unescape)
  have "lexLoop (q # rest) line column =
          Str (unescape rest) line column
            # lexLoop [] line (column + 1 + length (unescape rest))"
    using assms(1) quote_props(1-3) [OF assms(1)] sl len
    by (subst lexLoop.simps(2)) (auto simp: Let_def)
  then show ?thesis by (simp add: lexLoop.simps(1))
qed

text \<open>
  Claim C5, as amended. The lexer has no error path. When it reaches a \<open>"\<close> or \<open>'\<close> after
  which no unescaped occurrence of the same delimiter follows, it emits a \<open>str\<close> token that
  carries its current line and column counters and holds the rest of the input with the
  escapes decoded, and then the end-of-file token. When the text before the opening quote
  has no quote character and no \<open>//\<close>, these counters are the line and column of the
  opening quote.
\<close>

theorem unterminated_string_token:
  assumes "q = dquote \<or> q = squote" and "\<not> closingFound q rest"
  shows "lexLoop (q # rest) line column =
           [Str (unescape rest) line column,
            Eof line (column + 1 + length (unescape rest))]
    \<and> (plainText pre \<longrightarrow>
         (\<exists>toks. lexTokens (pre @ q # rest) =
            toks @ [Str (unescape rest) (fst (positionAfter pre (1, 1)))
                      (snd (positionAfter pre (1, 1))),
                    Eof (fst (positionAfter pre (1, 1)))
                      (snd (positionAfter pre (1, 1)) + 1 + length (unescape rest))]))"
proof (intro conjI impI)
  show "lexLoop (q # rest) line column =
           [Str (unescape rest) line column,
            Eof line (column + 1 + length (unescape rest))]"
    by (rule lexLoop_unterminated [OF assms])
next
  assume "plainText pre"
  from lexLoop_plain_prefix [OF assms(1) this, of rest 1 1]
  obtain toks where "lexLoop (pre @ q # rest) 1 1 =
      toks @ lexLoop (q # rest) (fst (positionAfter pre (1, 1))) (snd (positionAfter pre (1, 1)))"
    by blast
  then show "\<exists>toks. lexTokens (pre @ q # rest) =
            toks @ [Str (unescape rest) (fst (positionAfter pre (1, 1)))
                      (snd (positionAfter pre (1, 1))),
                    Eof (fst (positionAfter pre (1, 1)))
                      (snd (positionAfter pre (1, 1)) + 1 + length (unescape rest))]"
    unfolding lexTokens_def lexLoop_unterminated [OF assms] by blast
qed

theorem unterminated_string_token_witness:
  "lexLoop [CHR 0x22, CHR ''a'', CHR 0x5C, CHR 0x22, CHR ''b''] 1 5 =
     [Str [CHR ''a'', CHR 0x22, CHR ''b''] 1 5, Eof 1 9]
   \<and> (\<exists>toks. lexTokens (''x = '' @ [CHR 0x22, CHR ''a'', CHR 0x5C, CHR 0x22, CHR ''b'']) =
         toks @ [Str [CHR ''a'', CHR 0x22, CHR ''b''] 1 5, Eof 1 9])"
proof -
  have q: "CHR 0x22 = dquote \<or> CHR 0x22 = squote" by (simp add: dquote_def)
  have u: "\<not> closingFound (CHR 0x22) [CHR ''a'', CHR 0x5C, CHR 0x22, CHR ''b'']"
    by (simp add: backslash_def)
  have p: "plainText ''x = ''" by (simp add: dquote_def squote_def)
  have v: "unescape [CHR ''a'', CHR 0x5C, CHR 0x22, CHR ''b''] = [CHR ''a'', CHR 0x22, CHR ''b'']"
    by (simp add: backslash_def)
  have w: "positionAfter ''x = '' (1, 1) = (1, 5)" by (simp add: newline_def)
  from unterminated_string_token [OF q u, of 1 5 "''x = ''"] p
  show ?thesis unfolding v w by simp
qed

text \<open>Claim C5 as stated fails on scenario S7: the input \<open>let s: String = "hi\<close> is lexed
  into a token stream, with no error.\<close>

theorem unterminated_string_no_error:
  \<open>lexTokens ''let s: String = "hi'' =
     [Kw ''let'' 1 1, Ident ''s'' 1 5, Sym '':'' 1 6, Ident ''String'' 1 8, Sym ''='' 1 15,
      Str ''hi'' 1 17, Eof 1 20]\<close>
  by code_simp

text \<open>
  Claim C8: every token records the column of its first character, also after a string
  literal. The code does not: after a string literal the column advances by the length of
  the decoded text plus one, not by the number of characters read. In \<open>"a" b\<close> the
  identifier \<open>b\<close> starts at column 5 and is recorded at column 4.
\<close>

theorem column_after_string_literal:
  \<open>lexTokens ''"a" b'' = [Str ''a'' 1 1, Ident ''b'' 1 4, Eof 1 5]
   \<and> ''"a" b'' ! 4 = CHR ''b''\<close>
  by code_simp

section \<open>Properties of the type checker\<close>

lemma has_iff: "has m k \<longleftrightarrow> k \<in> fst ` set m"
  by (simp add: has_def map_of_eq_None_iff)

lemma classes_collectHeader:
  "fst ` set (classes (collectHeader s tc)) =
     fst ` set (classes tc) \<union> (case s of ClassDeclStmt d \<Rightarrow> {cname d} | _ \<Rightarrow> {})"
  by (cases s) (auto simp: Let_def dom_update)

lemma classes_fold_collectHeader:
  "fst ` set (classes (fold collectHeader ss tc)) =
     fst ` set (classes tc) \<union> {cname d |d. ClassDeclStmt d \<in> set ss}"
proof (induction ss arbitrary: tc)
  case Nil
  show ?case by simp
next
  case (Cons s ss)
  show ?case
    unfolding fold_simps Cons.IH classes_collectHeader
    by (cases s) auto
qed

lemma classes_fillMembers: "fst ` set (classes (fillMembers s tc)) = fst ` set (classes tc)"
proof (cases s)
  case (ClassDeclStmt d)
  show ?thesis
  proof (cases "map_of (classes tc) (cname d)")
    case None
    then show ?thesis using ClassDeclStmt by simp
  next
    case (Some info)
    then have "cname d \<in> fst ` set (classes tc)" by (metis has_def has_iff option.distinct(1))
    then show ?thesis using ClassDeclStmt Some by (auto simp: dom_update)
  qed
qed simp_all

lemma classes_fold_fillMembers:
  "fst ` set (classes (fold fillMembers ss tc)) = fst ` set (classes tc)"
  by (induction ss arbitrary: tc) (simp_all add: classes_fillMembers)

lemma classes_checkVarDecl: "classes (checkVarDecl s tc) = classes tc"
  by (cases s) simp_all

lemma classes_fold_checkVarDecl: "classes (fold checkVarDecl ss tc) = classes tc"
  by (induction ss arbitrary: tc) (simp_all add: classes_checkVarDecl)

lemma typeExists_classes: "classes tc = classes tc' \<Longrightarrow> typeExists tc t = typeExists tc' t"
  by (simp add: typeExists_def)

lemma errors_checkVarDecl: "set (errors tc) \<subseteq> set (errors (checkVarDecl s tc))"
  by (cases s) auto

lemma errors_fold_checkVarDecl: "set (errors tc) \<subseteq> set (errors (fold checkVarDecl ss tc))"
proof (induction ss arbitrary: tc)
  case Nil
  show ?case by simp
next
  case (Cons s ss)
  show ?case using errors_checkVarDecl [of tc s] Cons.IH [of "checkVarDecl s tc"] by auto
qed

lemma unknown_type_reported:
  assumes "VarDecl n t i \<in> set ss" and "\<not> typeExists tc t"
  shows "''Unknown type '' @ t @ '' in var '' @ n \<in> set (errors (fold checkVarDecl ss tc))"
  using assms
proof (induction ss arbitrary: tc)
  case Nil
  then show ?case by simp
next
  case (Cons s ss)
  show ?case
  proof (cases "s = VarDecl n t i")
    case True
    have "''Unknown type '' @ t @ '' in var '' @ n \<in> set (errors (checkVarDecl s tc))"
      using True Cons.prems(2) by simp
    then show ?thesis using errors_fold_checkVarDecl [of "checkVarDecl s tc" ss] by auto
  next
    case False
    then have mem: "VarDecl n t i \<in> set ss" using Cons.prems(1) by simp
    have "\<not> typeExists (checkVarDecl s tc) t"
      using Cons.prems(2) typeExists_classes [OF classes_checkVarDecl] by simp
    from Cons.IH [OF mem this] show ?thesis by simp
  qed
qed

text \<open>
  Claim C6, as amended. \<open>typeExists\<close> is true exactly for the eight listed spellings
  (\<open>int\<close>, \<open>Int\<close>, \<open>string\<close>, \<open>String\<close>, \<open>bool\<close>, \<open>Bool\<close>, \<open>void\<close>, \<open>Void\<close>) and for the names
  in the class table; after \<open>check\<close> the class table holds the names it held before and
  the names of the classes declared in the program; and a top-level variable declaration
  whose type name fails the test yields the error \<open>Unknown type T in var x\<close>.
\<close>

theorem typeExists_amended:
  "(typeExists tc t \<longleftrightarrow> t \<in> builtinTypeNames \<or> t \<in> fst ` set (classes tc))
   \<and> fst ` set (classes (checkState tc prog)) =
       fst ` set (classes tc) \<union> {cname d |d. ClassDeclStmt d \<in> set (body prog)}
   \<and> (VarDecl n t i \<in> set (body prog) \<and> \<not> typeExists (checkState tc prog) t \<longrightarrow>
        ''Unknown type '' @ t @ '' in var '' @ n \<in> set (check tc prog))"
proof (intro conjI impI)
  show "typeExists tc t \<longleftrightarrow> t \<in> builtinTypeNames \<or> t \<in> fst ` set (classes tc)"
    by (simp only: typeExists_def builtinTypeNames_def has_iff) auto
next
  show "fst ` set (classes (checkState tc prog)) =
       fst ` set (classes tc) \<union> {cname d |d. ClassDeclStmt d \<in> set (body prog)}"
    by (simp add: checkState_def Let_def classes_fold_checkVarDecl classes_fold_fillMembers
        classes_fold_collectHeader)
next
  assume h: "VarDecl n t i \<in> set (body prog) \<and> \<not> typeExists (checkState tc prog) t"
  define tc3 where "tc3 =
    (let tc1 = fold collectHeader (body prog) tc;
         tc2 = fold fillMembers (body prog) tc1
     in tc2\<lparr>errors := fold (checkSuper (classes tc2)) (classes tc2) (errors tc2)\<rparr>)"
  have st: "checkState tc prog = fold checkVarDecl (body prog) tc3"
    by (simp add: checkState_def tc3_def Let_def)
  have "classes (checkState tc prog) = classes tc3"
    unfolding st by (rule classes_fold_checkVarDecl)
  then have "\<not> typeExists tc3 t" using h typeExists_classes by blast
  with h show "''Unknown type '' @ t @ '' in var '' @ n \<in> set (check tc prog)"
    unfolding check_def st by (intro unknown_type_reported) auto
qed

theorem typeExists_amended_witness:
  "\<not> typeExists (checkState newTypeChecker \<lparr>body = [VarDecl ''x'' ''INT'' None]\<rparr>) ''INT''
   \<and> ''Unknown type INT in var x''
        \<in> set (check newTypeChecker \<lparr>body = [VarDecl ''x'' ''INT'' None]\<rparr>)"
proof -
  have a: "\<not> typeExists (checkState newTypeChecker \<lparr>body = [VarDecl ''x'' ''INT'' None]\<rparr>) ''INT''"
    by (simp add: checkState_def newTypeChecker_def typeExists_def has_def)
  have b: "VarDecl ''x'' ''INT'' None \<in> set (body \<lparr>body = [VarDecl ''x'' ''INT'' None]\<rparr>)"
    by simp
  from typeExists_amended [of newTypeChecker "''INT''" "\<lparr>body = [VarDecl ''x'' ''INT'' None]\<rparr>"
      "''x''" None] a b
  show ?thesis by simp
qed

text \<open>Claim C6 as stated fails: the test is case-sensitive, \<open>INT\<close> and \<open>sTrInG\<close> are not
  recognized.\<close>

theorem typeExists_case_sensitive:
  "\<not> typeExists newTypeChecker ''INT'' \<and> \<not> typeExists newTypeChecker ''sTrInG''"
  by (simp add: newTypeChecker_def typeExists_def has_def)

lemma superLoop_true_aux:
  assumes "superLoop cls cur b = Some r"
  shows "r = True \<longrightarrow> reached cls cur b"
proof (rule superLoop.raw_induct [where P = "\<lambda>cls cur b r. r = True \<longrightarrow> reached cls cur b", OF _ assms])
  fix f cls cur b r
  assume IH: "\<And>cls cur b y. f cls cur b = Some y \<Longrightarrow> y = True \<longrightarrow> reached cls cur b"
    and eq: "(if truthyName cur then
               (if the cur = b then Some True
                else f cls (case map_of cls (the cur) of None \<Rightarrow> None
                             | Some info \<Rightarrow> superName info) b)
              else Some False) = Some r"
  show "r = True \<longrightarrow> reached cls cur b"
  proof (cases "truthyName cur")
    case False
    then show ?thesis using eq by auto
  next
    case True
    then obtain c where c: "cur = Some c" "c \<noteq> []" by (cases cur) auto
    show ?thesis
    proof (cases "c = b")
      case True
      then show ?thesis using c by (simp add: reached_def)
    next
      case False
      let ?nx = "case map_of cls c of None \<Rightarrow> None | Some info \<Rightarrow> superName info"
      from eq c False have call: "f cls ?nx b = Some r" by simp
      show ?thesis
      proof
        assume "r = True"
        with IH [OF call] have "reached cls ?nx b" by simp
        then obtain d where d: "?nx = Some d" "d \<noteq> []"
          "d = b \<or> (d, b) \<in> (superLinks cls)\<^sup>+" unfolding reached_def by blast
        from d(1,2) have "(c, d) \<in> superLinks cls"
          by (auto simp: superLinks_def split: option.splits)
        with d(3) have "(c, b) \<in> (superLinks cls)\<^sup>+" by auto
        with c show "reached cls cur b" by (simp add: reached_def)
      qed
    qed
  qed
qed


lemma superLoop_stop: "\<not> truthyName cur \<Longrightarrow> superLoop cls cur b = Some False"
  by (subst superLoop.simps) simp

lemma superLoop_hit: "b \<noteq> [] \<Longrightarrow> superLoop cls (Some b) b = Some True"
  by (subst superLoop.simps) simp

lemma superLoop_next:
  "c \<noteq> [] \<Longrightarrow> c \<noteq> b \<Longrightarrow> superLoop cls (Some c) b =
     superLoop cls (case map_of cls c of None \<Rightarrow> None | Some info \<Rightarrow> superName info) b"
  by (subst superLoop.simps) simp

lemma superLoop_reach:
  assumes "(x, b) \<in> (superLinks cls)\<^sup>+"
  shows "\<exists>info. map_of cls x = Some info \<and> superLoop cls (superName info) b = Some True"
  using assms
proof (induction rule: converse_trancl_induct)
  case (base y)
  then show ?case by (auto simp: superLinks_def superLoop_hit)
next
  case (step y z)
  from step.hyps(1) obtain info where info: "map_of cls y = Some info"
    "superName info = Some z" "z \<noteq> []" by (auto simp: superLinks_def)
  from step.IH obtain info' where info': "map_of cls z = Some info'"
    "superLoop cls (superName info') b = Some True" by blast
  have "superLoop cls (Some z) b = Some True"
  proof (cases "z = b")
    case True
    then show ?thesis using info(3) by (simp add: superLoop_hit)
  next
    case False
    then show ?thesis using info(3) info' by (simp add: superLoop_next)
  qed
  then show ?case using info by simp
qed

lemma finite_superLinks: "finite (superLinks cls)"
proof -
  have "superLinks cls \<subseteq> (\<lambda>(k, info). (k, the (superName info))) ` set cls"
    by (force simp: superLinks_def image_iff dest!: map_of_SomeD)
  then show ?thesis by (rule finite_subset) simp
qed

lemma superLoop_returns:
  assumes "acyclic (superLinks cls)"
  shows "\<exists>r. superLoop cls cur b = Some r"
proof (cases "truthyName cur")
  case False
  then show ?thesis by (intro exI [of _ False]) (simp add: superLoop_stop)
next
  case True
  then obtain c where c: "cur = Some c" "c \<noteq> []" by (cases cur) auto
  have wf: "wf ((superLinks cls)\<inverse>)"
    using finite_superLinks assms by (rule finite_acyclic_wf_converse)
  have "c \<noteq> [] \<longrightarrow> (\<exists>r. superLoop cls (Some c) b = Some r)"
    using wf
  proof (induction c rule: wf_induct_rule)
    case (less c)
    show ?case
    proof
      assume nonempty: "c \<noteq> []"
      show "\<exists>r. superLoop cls (Some c) b = Some r"
      proof (cases "c = b")
        case True
        then show ?thesis using nonempty by (intro exI [of _ True]) (simp add: superLoop_hit)
      next
        case False
        let ?nx = "case map_of cls c of None \<Rightarrow> None | Some info \<Rightarrow> superName info"
        have unfold: "superLoop cls (Some c) b = superLoop cls ?nx b"
          by (rule superLoop_next [OF nonempty False])
        show ?thesis
        proof (cases "truthyName ?nx")
          case False
          then show ?thesis unfolding unfold
            by (intro exI [of _ False]) (simp add: superLoop_stop)
        next
          case True
          then obtain d where d: "?nx = Some d" "d \<noteq> []" by (cases ?nx) auto
          then have "(c, d) \<in> superLinks cls"
            by (auto simp: superLinks_def split: option.splits)
          then have "\<exists>r. superLoop cls (Some d) b = Some r" using less d(2) by simp
          then show ?thesis unfolding unfold d(1) .
        qed
      qed
    qed
  qed
  then show ?thesis using c by simp
qed

text \<open>
  Claim C7, as amended. \<open>isSubtype a a\<close> is true for every \<open>a\<close>, \<open>Void\<close> included. For
  \<open>a \<noteq> b\<close> it is false when either is \<open>Void\<close> or is not a declared class; otherwise it
  returns true exactly when following \<open>superName\<close> links from \<open>a\<close> reaches \<open>b\<close>. On an
  acyclic hierarchy it always returns.
\<close>

theorem isSubtype_amended:
  "isSubtype tc a a = Some True
   \<and> (a \<noteq> b \<and> (a = ''Void'' \<or> b = ''Void'') \<longrightarrow> isSubtype tc a b = Some False)
   \<and> (a \<noteq> b \<and> (\<not> has (classes tc) a \<or> \<not> has (classes tc) b) \<longrightarrow> isSubtype tc a b = Some False)
   \<and> (a \<noteq> b \<and> a \<noteq> ''Void'' \<and> b \<noteq> ''Void'' \<and> has (classes tc) a \<and> has (classes tc) b \<longrightarrow>
        (isSubtype tc a b = Some True \<longleftrightarrow> (a, b) \<in> (superLinks (classes tc))\<^sup>+))
   \<and> (acyclic (superLinks (classes tc)) \<longrightarrow> (\<exists>r. isSubtype tc a b = Some r))"
proof (intro conjI impI)
  show "isSubtype tc a a = Some True" by (simp add: isSubtype_def)
next
  assume "a \<noteq> b \<and> (a = ''Void'' \<or> b = ''Void'')"
  then show "isSubtype tc a b = Some False" by (auto simp: isSubtype_def)
next
  assume "a \<noteq> b \<and> (\<not> has (classes tc) a \<or> \<not> has (classes tc) b)"
  then show "isSubtype tc a b = Some False" by (auto simp: isSubtype_def)
next
  assume h: "a \<noteq> b \<and> a \<noteq> ''Void'' \<and> b \<noteq> ''Void'' \<and> has (classes tc) a \<and> has (classes tc) b"
  then obtain info where info: "map_of (classes tc) a = Some info" by (auto simp: has_def)
  from h info have eq: "isSubtype tc a b = superLoop (classes tc) (superName info) b"
    by (simp add: isSubtype_def)
  show "isSubtype tc a b = Some True \<longleftrightarrow> (a, b) \<in> (superLinks (classes tc))\<^sup>+"
  proof
    assume "isSubtype tc a b = Some True"
    with eq have "superLoop (classes tc) (superName info) b = Some True" by simp
    from superLoop_true_aux [OF this] obtain c where c: "superName info = Some c" "c \<noteq> []"
      "c = b \<or> (c, b) \<in> (superLinks (classes tc))\<^sup>+" unfolding reached_def by auto
    from info c(1,2) have "(a, c) \<in> superLinks (classes tc)" by (simp add: superLinks_def)
    with c(3) show "(a, b) \<in> (superLinks (classes tc))\<^sup>+" by auto
  next
    assume "(a, b) \<in> (superLinks (classes tc))\<^sup>+"
    from superLoop_reach [OF this] info eq show "isSubtype tc a b = Some True" by auto
  qed
next
  assume "acyclic (superLinks (classes tc))"
  from superLoop_returns [OF this] show "\<exists>r. isSubtype tc a b = Some r"
    by (auto simp: isSubtype_def)
qed


theorem isSubtype_amended_witness:
  "isSubtype \<lparr>classes = [(''A'', \<lparr>name = ''A'', superName = Some ''B'', fields' = [], methods = [], ctor = None\<rparr>),
                          (''B'', \<lparr>name = ''B'', superName = None, fields' = [], methods = [], ctor = None\<rparr>)],
              errors = []\<rparr> ''A'' ''B'' = Some True
   \<and> (''A'', ''B'') \<in> (superLinks [(''A'', \<lparr>name = ''A'', superName = Some ''B'', fields' = [], methods = [], ctor = None\<rparr>),
                          (''B'', \<lparr>name = ''B'', superName = None, fields' = [], methods = [], ctor = None\<rparr>)])\<^sup>+
   \<and> isSubtype \<lparr>classes = [(''A'', \<lparr>name = ''A'', superName = Some ''B'', fields' = [], methods = [], ctor = None\<rparr>),
                          (''B'', \<lparr>name = ''B'', superName = None, fields' = [], methods = [], ctor = None\<rparr>)],
              errors = []\<rparr> ''Void'' ''A'' = Some False
   \<and> isSubtype \<lparr>classes = [(''A'', \<lparr>name = ''A'', superName = Some ''B'', fields' = [], methods = [], ctor = None\<rparr>),
                          (''B'', \<lparr>name = ''B'', superName = None, fields' = [], methods = [], ctor = None\<rparr>)],
              errors = []\<rparr> ''A'' ''Z'' = Some False
   \<and> (\<exists>r. isSubtype \<lparr>classes = [(''A'', \<lparr>name = ''A'', superName = Some ''B'', fields' = [], methods = [], ctor = None\<rparr>),
                          (''B'', \<lparr>name = ''B'', superName = None, fields' = [], methods = [], ctor = None\<rparr>)],
              errors = []\<rparr> ''B'' ''A'' = Some r)"
proof -
  let ?cls = "[(''A'', \<lparr>name = ''A'', superName = Some ''B'', fields' = [], methods = [], ctor = None\<rparr>),
               (''B'', \<lparr>name = ''B'', superName = None, fields' = [], methods = [], ctor = None\<rparr>)]"
  let ?tc = "\<lparr>classes = ?cls, errors = []\<rparr>"
  have ev: "isSubtype ?tc ''A'' ''B'' = Some True"
    by (simp add: isSubtype_def has_def superLoop_hit)
  have hyp: "''A'' \<noteq> ''B'' \<and> ''A'' \<noteq> ''Void'' \<and> ''B'' \<noteq> ''Void''
     \<and> has (classes ?tc) ''A'' \<and> has (classes ?tc) ''B''"
    by (simp add: has_def)
  have void: "''Void'' \<noteq> ''A'' \<and> (''Void'' = ''Void'' \<or> ''A'' = ''Void'')" by simp
  have undeclared: "''A'' \<noteq> ''Z'' \<and> (\<not> has (classes ?tc) ''A'' \<or> \<not> has (classes ?tc) ''Z'')"
    by (simp add: has_def)
  have links: "superLinks ?cls = {(''A'', ''B'')}"
    by (auto simp: superLinks_def split: if_splits)
  have empty: "acyclic ({} :: (string \<times> string) set)"
    by (simp add: acyclic_def)
  have acyc: "acyclic (superLinks (classes ?tc))"
    using empty by (simp add: links acyclic_insert)
  from isSubtype_amended [of ?tc "''A''" "''B''"] hyp ev
  have 1: "(''A'', ''B'') \<in> (superLinks ?cls)\<^sup>+" by simp
  from isSubtype_amended [of ?tc "''Void''" "''A''"] void
  have 2: "isSubtype ?tc ''Void'' ''A'' = Some False" by blast
  from isSubtype_amended [of ?tc "''A''" "''Z''"] undeclared
  have 3: "isSubtype ?tc ''A'' ''Z'' = Some False" by blast
  from isSubtype_amended [of ?tc "''B''" "''A''"] acyc
  have 4: "\<exists>r. isSubtype ?tc ''B'' ''A'' = Some r" by blast
  from ev 1 2 3 4 show ?thesis by blast
qed

text \<open>Claim C7 as stated fails: it asks \<open>isSubtype\<close> on \<open>void\<close> with itself to be false,
  and the code answers true, for \<open>void\<close> and for \<open>Void\<close>.\<close>

theorem isSubtype_void_reflexive:
  "isSubtype newTypeChecker ''void'' ''void'' = Some True
   \<and> isSubtype newTypeChecker ''Void'' ''Void'' = Some True"
  by (simp add: isSubtype_def)


section \<open>Properties of the parser\<close>

lemma le_res_refl: "le_res m m"
  by (simp add: le_res_def)

lemma le_res_None: "le_res None m"
  by (simp add: le_res_def)

lemma le_res_pbind:
  "le_res m m' \<Longrightarrow> (\<And>x ts. le_res (f x ts) (f' x ts)) \<Longrightarrow> le_res (pbind m f) (pbind m' f')"
  by (auto simp: le_res_def pbind_def split: option.splits sum.splits)

lemma le_res_pstep:
  "(\<And>x. le_res (f x) (f' x)) \<Longrightarrow> le_res (pstep a f) (pstep a f')"
  by (auto simp: le_res_def pstep_def split: sum.splits)

lemma le_res_if:
  "le_res a a' \<Longrightarrow> le_res b b' \<Longrightarrow> le_res (if c then a else b) (if c then a' else b')"
  by simp

lemma le_res_list:
  "le_res a a' \<Longrightarrow> (\<And>t rest. le_res (b t rest) (b' t rest)) \<Longrightarrow>
   le_res (case ts of [] \<Rightarrow> a | t # rest \<Rightarrow> b t rest) (case ts of [] \<Rightarrow> a' | t # rest \<Rightarrow> b' t rest)"
  by (cases ts) simp_all

lemma le_res_prod:
  "(\<And>a b. le_res (f a b) (f' a b)) \<Longrightarrow> le_res (case_prod f p) (case_prod f' p)"
  by (cases p) simp

lemma le_res_token:
  "(\<And>v l c. le_res (f1 v l c) (g1 v l c)) \<Longrightarrow> (\<And>v l c. le_res (f2 v l c) (g2 v l c)) \<Longrightarrow>
   (\<And>v l c. le_res (f3 v l c) (g3 v l c)) \<Longrightarrow> (\<And>v l c. le_res (f4 v l c) (g4 v l c)) \<Longrightarrow>
   (\<And>v l c. le_res (f5 v l c) (g5 v l c)) \<Longrightarrow> (\<And>l c. le_res (f6 l c) (g6 l c)) \<Longrightarrow>
   le_res (case_token f1 f2 f3 f4 f5 f6 t) (case_token g1 g2 g3 g4 g5 g6 t)"
  by (cases t) simp_all

lemmas le_res_intros = le_res_refl le_res_pbind le_res_pstep le_res_if le_res_list le_res_prod
  le_res_token

lemma parser_fuel_Suc:
  "le_res (parseExpr n ts) (parseExpr (Suc n) ts)
 \<and> le_res (parseAssignment n ts) (parseAssignment (Suc n) ts)
 \<and> le_res (parseBinary n ts) (parseBinary (Suc n) ts)
 \<and> le_res (binaryLoop n l ts) (binaryLoop (Suc n) l ts)
 \<and> le_res (parseUnary n ts) (parseUnary (Suc n) ts)
 \<and> le_res (parsePrimary n ts) (parsePrimary (Suc n) ts)
 \<and> le_res (suffixLoop n e ts) (suffixLoop (Suc n) e ts)
 \<and> le_res (parseArgs n ts) (parseArgs (Suc n) ts)
 \<and> le_res (argsLoop n a ts) (argsLoop (Suc n) a ts)"
proof (induction n arbitrary: ts l e a)
  case 0
  show ?case by (simp add: le_res_None)
next
  case (Suc n)
  note IH = Suc.IH [THEN conjunct1]
    Suc.IH [THEN conjunct2, THEN conjunct1]
    Suc.IH [THEN conjunct2, THEN conjunct2, THEN conjunct1]
    Suc.IH [THEN conjunct2, THEN conjunct2, THEN conjunct2, THEN conjunct1]
    Suc.IH [THEN conjunct2, THEN conjunct2, THEN conjunct2, THEN conjunct2, THEN conjunct1]
    Suc.IH [THEN conjunct2, THEN conjunct2, THEN conjunct2, THEN conjunct2, THEN conjunct2,
      THEN conjunct1]
    Suc.IH [THEN conjunct2, THEN conjunct2, THEN conjunct2, THEN conjunct2, THEN conjunct2,
      THEN conjunct2, THEN conjunct1]
    Suc.IH [THEN conjunct2, THEN conjunct2, THEN conjunct2, THEN conjunct2, THEN conjunct2,
      THEN conjunct2, THEN conjunct2, THEN conjunct1]
    Suc.IH [THEN conjunct2, THEN conjunct2, THEN conjunct2, THEN conjunct2, THEN conjunct2,
      THEN conjunct2, THEN conjunct2, THEN conjunct2]
  have e1: "le_res (parseExpr (Suc n) ts) (parseExpr (Suc (Suc n)) ts)"
    by (subst (1 2) parseExpr.simps) (intro le_res_intros IH)
  have e2: "le_res (parseAssignment (Suc n) ts) (parseAssignment (Suc (Suc n)) ts)"
    by (subst (1 2) parseAssignment.simps) (intro le_res_intros IH)
  have e3: "le_res (parseBinary (Suc n) ts) (parseBinary (Suc (Suc n)) ts)"
    by (subst (1 2) parseBinary.simps) (intro le_res_intros IH)
  have e4: "le_res (binaryLoop (Suc n) l ts) (binaryLoop (Suc (Suc n)) l ts)"
    by (subst (1 2) binaryLoop.simps) (intro le_res_intros IH)
  have e5: "le_res (parseUnary (Suc n) ts) (parseUnary (Suc (Suc n)) ts)"
    by (subst (1 2) parseUnary.simps) (intro le_res_intros IH)
  have e6: "le_res (parsePrimary (Suc n) ts) (parsePrimary (Suc (Suc n)) ts)"
    by (subst (1 2) parsePrimary.simps) (intro le_res_intros IH)
  have e7: "le_res (suffixLoop (Suc n) e ts) (suffixLoop (Suc (Suc n)) e ts)"
    by (subst (1 2) suffixLoop.simps) (intro le_res_intros IH)
  have e8: "le_res (parseArgs (Suc n) ts) (parseArgs (Suc (Suc n)) ts)"
    by (subst (1 2) parseArgs.simps) (intro le_res_intros IH)
  have e9: "le_res (argsLoop (Suc n) a ts) (argsLoop (Suc (Suc n)) a ts)"
    by (subst (1 2) argsLoop.simps) (intro le_res_intros IH)
  from e1 e2 e3 e4 e5 e6 e7 e8 e9 show ?case by blast
qed


lemma parseUnary_fuel_le:
  assumes "n \<le> m" and "parseUnary n ts = Some r"
  shows "parseUnary m ts = Some r"
  using assms
proof (induction m)
  case 0
  then show ?case by simp
next
  case (Suc m)
  show ?case
  proof (cases "n = Suc m")
    case True
    then show ?thesis using Suc.prems by simp
  next
    case False
    then have "parseUnary m ts = Some r" using Suc by simp
    then show ?thesis using parser_fuel_Suc [of m ts] by (simp add: le_res_def)
  qed
qed

lemma binaryLoop_step:
  assumes "isBinaryOp t" and "parseUnary n rest = Some (Inr (right, ts1))"
  shows "binaryLoop (Suc n) left (t # rest) = binaryLoop n (BinaryExpr (tvalue t) left right) ts1"
  using assms by (simp add: pbind_def)

lemma binaryLoop_stop:
  assumes "\<not> isBinaryOp t"
  shows "binaryLoop (Suc n) left (t # rest) = Some (Inr (left, t # rest))"
  using assms by (simp add: pret_def)

lemma parseBinary_step:
  assumes "parseUnary n ts = Some (Inr (left, ts1))"
  shows "parseBinary (Suc n) ts = binaryLoop n left ts1"
  using assms by (simp add: pbind_def)

text \<open>
  Claim C4, as amended. The ten binary operators form one left-associative tier: when
  \<open>parseUnary\<close> reads \<open>a\<close>, then after the operator \<open>op1\<close> reads \<open>b\<close>, then after the
  operator \<open>op2\<close> reads \<open>c\<close>, and the next token is no binary operator, \<open>parseBinary\<close> (with
  enough fuel) returns \<open>BinaryExpr op2 (BinaryExpr op1 a b) c\<close>. So \<open>1 + 2 * 3\<close> parses as
  \<open>(1 + 2) * 3\<close>, and interpreting the program \<open>print(1 + 2 * 3)\<close> writes \<open>9\<close> and a newline
  to standard output.
\<close>

theorem binary_left_assoc_flat:
  "(parseUnary n ts = Some (Inr (a, Sym op1 l1 c1 # ts1)) \<and> op1 \<in> set binaryOps
    \<and> parseUnary n ts1 = Some (Inr (b, Sym op2 l2 c2 # ts2)) \<and> op2 \<in> set binaryOps
    \<and> parseUnary n ts2 = Some (Inr (c, t # ts3)) \<and> \<not> isBinaryOp t
    \<longrightarrow> parseBinary (n + 4 + k) ts
          = Some (Inr (BinaryExpr op2 (BinaryExpr op1 a b) c, t # ts3)))
   \<and> parseSource 20 ''print(1 + 2 * 3)''
       = Some (Inr (\<lparr>body = [ExprStmt (CallExpr (Identifier ''print'')
            [BinaryExpr ''*'' (BinaryExpr ''+'' (IntLiteral 1) (IntLiteral 2)) (IntLiteral 3)])]\<rparr>,
          [Eof 1 17]))
   \<and> map_option outcomeStdout (mainRun [] 20 ''print(1 + 2 * 3)'') = Some (''9'' @ [newline])"
proof (intro conjI impI)
  assume h: "parseUnary n ts = Some (Inr (a, Sym op1 l1 c1 # ts1)) \<and> op1 \<in> set binaryOps
    \<and> parseUnary n ts1 = Some (Inr (b, Sym op2 l2 c2 # ts2)) \<and> op2 \<in> set binaryOps
    \<and> parseUnary n ts2 = Some (Inr (c, t # ts3)) \<and> \<not> isBinaryOp t"
  define m where "m = n + k"
  have le: "n \<le> Suc m" "n \<le> Suc (Suc m)" "n \<le> Suc (Suc (Suc m))"
    by (simp_all add: m_def)
  have u1: "parseUnary (Suc (Suc (Suc m))) ts = Some (Inr (a, Sym op1 l1 c1 # ts1))"
    using h le(3) by (blast intro: parseUnary_fuel_le)
  have u2: "parseUnary (Suc (Suc m)) ts1 = Some (Inr (b, Sym op2 l2 c2 # ts2))"
    using h le(2) by (blast intro: parseUnary_fuel_le)
  have u3: "parseUnary (Suc m) ts2 = Some (Inr (c, t # ts3))"
    using h le(1) by (blast intro: parseUnary_fuel_le)
  have o1: "isBinaryOp (Sym op1 l1 c1)" and o2: "isBinaryOp (Sym op2 l2 c2)"
    and o3: "\<not> isBinaryOp t"
    using h by simp_all
  have v1: "tvalue (Sym op1 l1 c1) = op1" and v2: "tvalue (Sym op2 l2 c2) = op2"
    by simp_all
  have fuel: "n + 4 + k = Suc (Suc (Suc (Suc m)))"
    by (simp add: m_def)
  have "parseBinary (Suc (Suc (Suc (Suc m)))) ts
          = binaryLoop (Suc (Suc (Suc m))) a (Sym op1 l1 c1 # ts1)"
    by (rule parseBinary_step [OF u1])
  also have "\<dots> = binaryLoop (Suc (Suc m)) (BinaryExpr op1 a b) (Sym op2 l2 c2 # ts2)"
    using binaryLoop_step [OF o1 u2, of a] unfolding v1 .
  also have "\<dots> = binaryLoop (Suc m) (BinaryExpr op2 (BinaryExpr op1 a b) c) (t # ts3)"
    using binaryLoop_step [OF o2 u3, of "BinaryExpr op1 a b"] unfolding v2 .
  also have "\<dots> = Some (Inr (BinaryExpr op2 (BinaryExpr op1 a b) c, t # ts3))"
    by (rule binaryLoop_stop [OF o3])
  finally show "parseBinary (n + 4 + k) ts
      = Some (Inr (BinaryExpr op2 (BinaryExpr op1 a b) c, t # ts3))"
    unfolding fuel .
next
  show "parseSource 20 ''print(1 + 2 * 3)''
       = Some (Inr (\<lparr>body = [ExprStmt (CallExpr (Identifier ''print'')
            [BinaryExpr ''*'' (BinaryExpr ''+'' (IntLiteral 1) (IntLiteral 2)) (IntLiteral 3)])]\<rparr>,
          [Eof 1 17]))"
    by code_simp
next
  show "map_option outcomeStdout (mainRun [] 20 ''print(1 + 2 * 3)'') = Some (''9'' @ [newline])"
    by code_simp
qed

theorem binary_left_assoc_flat_witness:
  "parseBinary 6 [Num ''1'' 1 1, Sym ''+'' 1 3, Num ''2'' 1 5, Sym ''*'' 1 7, Num ''3'' 1 9, Eof 1 10]
     = Some (Inr (BinaryExpr ''*'' (BinaryExpr ''+'' (IntLiteral 1) (IntLiteral 2)) (IntLiteral 3),
                  [Eof 1 10]))"
proof -
  have a: "parseUnary 2 [Num ''1'' 1 1, Sym ''+'' 1 3, Num ''2'' 1 5, Sym ''*'' 1 7, Num ''3'' 1 9, Eof 1 10]
     = Some (Inr (IntLiteral 1, Sym ''+'' 1 3 # [Num ''2'' 1 5, Sym ''*'' 1 7, Num ''3'' 1 9, Eof 1 10]))"
    by code_simp
  have b: "parseUnary 2 [Num ''2'' 1 5, Sym ''*'' 1 7, Num ''3'' 1 9, Eof 1 10]
     = Some (Inr (IntLiteral 2, Sym ''*'' 1 7 # [Num ''3'' 1 9, Eof 1 10]))"
    by code_simp
  have c: "parseUnary 2 [Num ''3'' 1 9, Eof 1 10] = Some (Inr (IntLiteral 3, Eof 1 10 # []))"
    by code_simp
  have ops: "''+'' \<in> set binaryOps" "''*'' \<in> set binaryOps" "\<not> isBinaryOp (Eof 1 10)"
    by (simp_all add: binaryOps_def)
  from binary_left_assoc_flat [of 2 _ "IntLiteral 1" "''+''" 1 3 _ "IntLiteral 2" "''*''" 1 7 _
      "IntLiteral 3" "Eof 1 10" "[]" 0] a b c ops
  show ?thesis by simp
qed

text \<open>Claim C4 as stated fails in its last part: the program \<open>print(1 + 2 * 3)\<close> does not
  write \<open>7\<close>.\<close>

theorem print_flat_precedence_not_7:
  "map_option outcomeStdout (mainRun [] 20 ''print(1 + 2 * 3)'') \<noteq> Some (''7'' @ [newline])"
proof -
  have e: "map_option outcomeStdout (mainRun [] 20 ''print(1 + 2 * 3)'') = Some (''9'' @ [newline])"
    by code_simp
  show ?thesis unfolding e by simp
qed


section \<open>Properties of the interpreter\<close>

text \<open>
  Claim C1: an identifier is looked up in the current environment first, so a method
  parameter is found. The code looks in \<open>globals\<close> only: the parameter \<open>x\<close>, bound in the
  local environment of the call, is an unknown identifier.
\<close>

theorem parameter_lookup_fails:
  "map_option (\<lambda>r. (runtimeError r, outcomeStdout r))
     (mainRun [] 30 ''class C { id(x: int): int { return x } } print(C.id(5))'')
   = Some (Some ''Unknown identifier x'', [])"
  by code_simp

text \<open>
  Claim C2: a \<open>return\<close> inside a nested \<open>if\<close> block ends the method with the value of its
  expression. The code drops the signal that \<open>execStmt\<close> returns for it: the method goes on
  and the call below yields 2, not 1.
\<close>

theorem nested_return_ignored:
  "map_option (\<lambda>r. (runtimeError r, outcomeStdout r))
     (mainRun [] 30 ''class C { f(): int { if (1) { return 1 } return 2 } } print(C.f())'')
   = Some (None, ''2'' @ [newline])"
  by code_simp

text \<open>
  Claim C3: \<open>new\<close> runs the constructor with its parameters bound to the arguments. The
  code finds the constructor and does nothing with it: the field assigned in the
  constructor of \<open>Dog\<close> stays \<open>null\<close>.
\<close>

theorem constructor_not_run:
  \<open>map_option (\<lambda>r. (runtimeError r, outcomeStdout r))
     (mainRun [] 30 ''class Dog { name: String constructor(name: String) { this.name = name } } let dog: Dog = new Dog("Rex") print(dog.name)'')
   = Some (None, ''null'' @ [newline])\<close>
  by code_simp

lemma bindParams_fold:
  "bindParams ps vals env = fold (\<lambda>(p, a). AList.update (pname p) a) (zip ps vals) env"
  by (induction ps vals env rule: bindParams.induct) simp_all

lemma map_of_bindParams_other:
  "k \<notin> pname ` set (take (length vals) ps) \<Longrightarrow> map_of (bindParams ps vals env) k = map_of env k"
proof (induction ps vals env rule: bindParams.induct)
  case (1 p ps a as localEnv)
  then show ?case by (simp add: update_conv')
qed simp_all

lemma evalArgs_length:
  "evalArgs n args target rt = Some (Inr (vs, t', rt')) \<Longrightarrow> length vs = length args"
proof (induction args arbitrary: n target rt vs t' rt')
  case Nil
  then show ?case by (cases n) (simp_all add: ret_def)
next
  case (Cons a as)
  then obtain m where n: "n = Suc m" by (cases n) simp_all
  from Cons.prems obtain v t1 rt1 vs1 where
    "evalArgs m as t1 rt1 = Some (Inr (vs1, t', rt'))" "vs = v # vs1"
    unfolding n by (auto simp: andThen_def ret_def split: option.splits sum.splits prod.splits)
  with Cons.IH show ?case by auto
qed

text \<open>
  Claim C9, as amended. A method call sets one parameter for each pair of the parameter
  list zipped with the argument values, that is \<open>min\<close> of the two lengths; the arguments
  are all evaluated, the first one first, each in the state the previous one left; once
  the receiver, the method and the arguments are evaluated the call runs the body,
  whatever the two lengths are (there is no arity error). A name that is not the name of
  a bound parameter gets no binding from the call: the environment of the method holds
  under it whatever the copy of the caller's environment (with \<open>this\<close>, for an instance
  call) holds.
\<close>

theorem call_binds_min_params:
  "bindParams ps vals env = fold (\<lambda>(p, a). AList.update (pname p) a) (zip ps vals) env
   \<and> length (zip ps vals) = min (length ps) (length vals)
   \<and> (k \<notin> pname ` set (take (length vals) ps) \<longrightarrow>
        map_of (bindParams ps vals env) k = map_of env k)
   \<and> evalArgs (Suc n) (e # es) target rt =
        andThen (evalExpr n e target rt) (\<lambda>(v, t1, rt1).
          andThen (evalArgs n es t1 rt1) (\<lambda>(vs, t2, rt2). ret (v # vs, t2, rt2)))
   \<and> (evalArgs n args target rt = Some (Inr (argVals, t2, rt2)) \<longrightarrow>
        length argVals = length args)
   \<and> (evalExpr n objE target0 rt0 = Some (Inr (VClass cn, target, rt))
        \<and> findMethod rt cn mn = Some (Some method)
        \<and> evalArgs n args target rt = Some (Inr (argVals, t2, rt2)) \<longrightarrow>
        evalExpr (Suc n) (CallExpr (FieldAccessExpr objE mn) args) target0 rt0 =
          andThen (execBody n (mbody method)
                     (Local (bindParams (mparams method) argVals (targetCopy t2 rt2))) rt2)
            (\<lambda>(result, t3, rt3). ret (result, t2, rt3)))
   \<and> (evalExpr n objE target0 rt0 = Some (Inr (VObject cn ad, target, rt))
        \<and> findMethod rt cn mn = Some (Some method)
        \<and> evalArgs n args target rt = Some (Inr (argVals, t2, rt2)) \<longrightarrow>
        evalExpr (Suc n) (CallExpr (FieldAccessExpr objE mn) args) target0 rt0 =
          andThen (execBody n (mbody method)
                     (Local (bindParams (mparams method) argVals
                        (AList.update ''this'' (VObject cn ad) (targetCopy t2 rt2)))) rt2)
            (\<lambda>(result, t3, rt3). ret (result, t2, rt3)))"
proof (intro conjI impI)
  show "bindParams ps vals env = fold (\<lambda>(p, a). AList.update (pname p) a) (zip ps vals) env"
    by (rule bindParams_fold)
next
  show "length (zip ps vals) = min (length ps) (length vals)" by simp
next
  assume "k \<notin> pname ` set (take (length vals) ps)"
  then show "map_of (bindParams ps vals env) k = map_of env k"
    by (rule map_of_bindParams_other)
next
  show "evalArgs (Suc n) (e # es) target rt =
        andThen (evalExpr n e target rt) (\<lambda>(v, t1, rt1).
          andThen (evalArgs n es t1 rt1) (\<lambda>(vs, t2, rt2). ret (v # vs, t2, rt2)))"
    by simp
next
  assume "evalArgs n args target rt = Some (Inr (argVals, t2, rt2))"
  then show "length argVals = length args" by (rule evalArgs_length)
next
  assume "evalExpr n objE target0 rt0 = Some (Inr (VClass cn, target, rt))
        \<and> findMethod rt cn mn = Some (Some method)
        \<and> evalArgs n args target rt = Some (Inr (argVals, t2, rt2))"
  then show "evalExpr (Suc n) (CallExpr (FieldAccessExpr objE mn) args) target0 rt0 =
          andThen (execBody n (mbody method)
                     (Local (bindParams (mparams method) argVals (targetCopy t2 rt2))) rt2)
            (\<lambda>(result, t3, rt3). ret (result, t2, rt3))"
    by (simp add: andThen_def Let_def)
next
  assume "evalExpr n objE target0 rt0 = Some (Inr (VObject cn ad, target, rt))
        \<and> findMethod rt cn mn = Some (Some method)
        \<and> evalArgs n args target rt = Some (Inr (argVals, t2, rt2))"
  then show "evalExpr (Suc n) (CallExpr (FieldAccessExpr objE mn) args) target0 rt0 =
          andThen (execBody n (mbody method)
                     (Local (bindParams (mparams method) argVals
                        (AList.update ''this'' (VObject cn ad) (targetCopy t2 rt2)))) rt2)
            (\<lambda>(result, t3, rt3). ret (result, t2, rt3))"
    by (simp add: andThen_def Let_def)
qed

theorem call_binds_min_params_witness:
  "map_of (bindParams [Param ''n'' ''int'', Param ''m'' ''int''] [VInt (Fin 1)] []) ''m'' = None
   \<and> evalExpr 4 (CallExpr (FieldAccessExpr (Identifier ''C'') ''f'') [IntLiteral 1]) Globals
        (newRuntime \<lparr>body = [ClassDeclStmt (ClassDecl ''C'' None
           [MethodDecl ''f'' [Param ''n'' ''int'', Param ''m'' ''int''] ''int''
              [ReturnStmt (Some (IntLiteral 0))]])]\<rparr>)
      = Some (Inr (VInt (Fin 0), Globals,
          newRuntime \<lparr>body = [ClassDeclStmt (ClassDecl ''C'' None
           [MethodDecl ''f'' [Param ''n'' ''int'', Param ''m'' ''int''] ''int''
              [ReturnStmt (Some (IntLiteral 0))]])]\<rparr>))
   \<and> evalExpr 6 (CallExpr (FieldAccessExpr (NewExpr ''C'' []) ''f'') [IntLiteral 1, IntLiteral 2, IntLiteral 3]) Globals
        (newRuntime \<lparr>body = [ClassDeclStmt (ClassDecl ''C'' None
           [MethodDecl ''f'' [Param ''n'' ''int'', Param ''m'' ''int''] ''int''
              [ReturnStmt (Some (IntLiteral 0))]])]\<rparr>)
      = Some (Inr (VInt (Fin 0), Globals,
          (newRuntime \<lparr>body = [ClassDeclStmt (ClassDecl ''C'' None
           [MethodDecl ''f'' [Param ''n'' ''int'', Param ''m'' ''int''] ''int''
              [ReturnStmt (Some (IntLiteral 0))]])]\<rparr>)\<lparr>store := [[]]\<rparr>))"
proof -
  let ?m = "MethodDecl ''f'' [Param ''n'' ''int'', Param ''m'' ''int''] ''int''
              [ReturnStmt (Some (IntLiteral 0))]"
  let ?rt = "newRuntime \<lparr>body = [ClassDeclStmt (ClassDecl ''C'' None [?m])]\<rparr>"
  let ?rt1 = "?rt\<lparr>store := [[]]\<rparr>"
  have k: "''m'' \<notin> pname ` set (take (length [VInt (Fin 1)])
              [Param ''n'' ''int'', Param ''m'' ''int''])"
    by simp
  have a: "evalExpr 3 (Identifier ''C'') Globals ?rt = Some (Inr (VClass ''C'', Globals, ?rt))"
    by code_simp
  have b: "findMethod ?rt ''C'' ''f'' = Some (Some ?m)"
    by code_simp
  have c: "evalArgs 3 [IntLiteral 1] Globals ?rt = Some (Inr ([VInt (Fin 1)], Globals, ?rt))"
    by code_simp
  have d: "andThen (execBody 3 (mbody ?m)
                     (Local (bindParams (mparams ?m) [VInt (Fin 1)] (targetCopy Globals ?rt))) ?rt)
            (\<lambda>(result, t3, rt3). ret (result, Globals, rt3))
           = Some (Inr (VInt (Fin 0), Globals, ?rt))"
    by code_simp
  have a': "evalExpr 5 (NewExpr ''C'' []) Globals ?rt = Some (Inr (VObject ''C'' 0, Globals, ?rt1))"
    by code_simp
  have b': "findMethod ?rt1 ''C'' ''f'' = Some (Some ?m)"
    by code_simp
  have c': "evalArgs 5 [IntLiteral 1, IntLiteral 2, IntLiteral 3] Globals ?rt1
      = Some (Inr ([VInt (Fin 1), VInt (Fin 2), VInt (Fin 3)], Globals, ?rt1))"
    by code_simp
  have d': "andThen (execBody 5 (mbody ?m)
                     (Local (bindParams (mparams ?m) [VInt (Fin 1), VInt (Fin 2), VInt (Fin 3)]
                        (AList.update ''this'' (VObject ''C'' 0) (targetCopy Globals ?rt1)))) ?rt1)
            (\<lambda>(result, t3, rt3). ret (result, Globals, rt3))
           = Some (Inr (VInt (Fin 0), Globals, ?rt1))"
    by code_simp
  have fuel: "(4::nat) = Suc 3" "(6::nat) = Suc 5" by simp_all
  from call_binds_min_params [of "[Param ''n'' ''int'', Param ''m'' ''int'']" "[VInt (Fin 1)]" "[]"
      "''m''" 3 _ _ Globals ?rt "[IntLiteral 1]" "[VInt (Fin 1)]" Globals ?rt "Identifier ''C''"
      Globals ?rt "''C''" "''f''" ?m] k a b c d
  have 1: "map_of (bindParams [Param ''n'' ''int'', Param ''m'' ''int''] [VInt (Fin 1)] []) ''m'' = None"
    and 2: "evalExpr (Suc 3) (CallExpr (FieldAccessExpr (Identifier ''C'') ''f'') [IntLiteral 1]) Globals ?rt
      = Some (Inr (VInt (Fin 0), Globals, ?rt))"
    by simp_all
  from call_binds_min_params [of _ _ _ _ 5 _ _ Globals ?rt1 "[IntLiteral 1, IntLiteral 2, IntLiteral 3]"
      "[VInt (Fin 1), VInt (Fin 2), VInt (Fin 3)]" Globals ?rt1 "NewExpr ''C'' []"
      Globals ?rt "''C''" "''f''" ?m 0] a' b' c' d'
  have 3: "evalExpr (Suc 5) (CallExpr (FieldAccessExpr (NewExpr ''C'' []) ''f'')
        [IntLiteral 1, IntLiteral 2, IntLiteral 3]) Globals ?rt
      = Some (Inr (VInt (Fin 0), Globals, ?rt1))"
    by simp
  from 1 2 3 show ?thesis unfolding fuel by blast
qed

text \<open>Claim C9 as stated fails in its last part: an unbound parameter is present in the
  environment of the method when the caller's environment binds its name. After
  \<open>let n: int = 5\<close> the environment built for the call \<open>C.f()\<close> holds \<open>n\<close>.\<close>

theorem unbound_parameter_present:
  "map_option (\<lambda>r. case r of
        Finished rt \<Rightarrow> map_of (bindParams [Param ''n'' ''int''] [] (targetCopy Globals rt)) ''n''
      | _ \<Rightarrow> None)
     (mainRun [] 30 ''let n: int = 5 class C { f(n: int): int { return 0 } }'')
   = Some (Some (VInt (Fin 5)))"
  by code_simp


text \<open>
  Claim C10. Division is not guarded against a zero divisor: \<open>x / 0\<close> raises no error and
  yields an \<open>int\<close> value whose payload is an infinity or NaN, which later operations
  accept.
\<close>

theorem division_by_zero_unguarded:
  "binaryOp ''/'' (VInt x) (VInt (Fin 0)) =
     Some (VInt (if isNaN x \<or> isZero x then NaN else if isNeg x then NegInf else PosInf))
   \<and> evalExpr (Suc (Suc n)) (BinaryExpr ''/'' (IntLiteral i) (IntLiteral 0)) target rt =
       Some (Inr (VInt (if i = 0 then NaN else if i < 0 then NegInf else PosInf), target, rt))
   \<and> binaryOp ''+'' (VInt (numDivFloor x (Fin 0))) (VInt (Fin j)) =
       Some (VInt (numDivFloor x (Fin 0)))
   \<and> valToString (VInt (numDivFloor (Fin i) (Fin 0))) =
       (if i = 0 then ''NaN'' else if i < 0 then ''-Infinity'' else ''Infinity'')"
proof (intro conjI)
  show "binaryOp ''/'' (VInt x) (VInt (Fin 0)) =
     Some (VInt (if isNaN x \<or> isZero x then NaN else if isNeg x then NegInf else PosInf))"
    by (cases x) (simp_all add: binaryOp_def numDivFloor_def signedInf_def)
next
  show "evalExpr (Suc (Suc n)) (BinaryExpr ''/'' (IntLiteral i) (IntLiteral 0)) target rt =
       Some (Inr (VInt (if i = 0 then NaN else if i < 0 then NegInf else PosInf), target, rt))"
    by (simp add: andThen_def ret_def binaryOp_def numDivFloor_def signedInf_def)
next
  show "binaryOp ''+'' (VInt (numDivFloor x (Fin 0))) (VInt (Fin j)) =
       Some (VInt (numDivFloor x (Fin 0)))"
    by (cases x) (simp_all add: binaryOp_def numDivFloor_def signedInf_def numAdd_def)
next
  show "valToString (VInt (numDivFloor (Fin i) (Fin 0))) =
       (if i = 0 then ''NaN'' else if i < 0 then ''-Infinity'' else ''Infinity'')"
    by (simp add: numDivFloor_def signedInf_def)
qed



end
